theory Spec2Isabelle
  imports Main "HOL-Library.Word"
begin

section \<open>Errors and values shared by the packages\<close>

text \<open>
  Go errors are values. The constructors below are the error values the modelled code
  can produce: errors handed up by the websocket and network libraries, and the
  \<^verbatim>\<open>fmt.Errorf\<close> wrappers of package \<^verbatim>\<open>client\<close>.
\<close>

datatype error =
    TransportError string
  | WSCloseError nat
  | FailedConnectPrivate error
  | FailedConnectMarkets error
  | PrivateNotConnected
  | MarketsNotConnected
  | FailedMarshal error
  | ErrorsClosing "error list"
  | FailedCreateRequest error
  | InvalidURLEscape string
  | InvalidControlCharacter
  | MissingProtocolScheme
  | ColonInFirstSegment
  | InvalidMethod string

definition CloseNormalClosure :: nat where
  "CloseNormalClosure = 1000"

definition CloseGoingAway :: nat where
  "CloseGoingAway = 1001"

fun IsCloseError :: "error \<Rightarrow> nat list \<Rightarrow> bool" where
  "IsCloseError (WSCloseError code) codes = (code \<in> set codes)"
| "IsCloseError _ codes = False"

text \<open>
  A call either returns or panics. A panic in \<^verbatim>\<open>Close\<close> runs the deferred unlock and
  then unwinds the caller; no field has been written at that point.
\<close>

datatype 'a outcome = Panic string | Return 'a

section \<open>JSON documents\<close>

text \<open>
  \<^verbatim>\<open>json.Marshal\<close> is modelled by the document it serialises: the fields of a struct in
  declaration order under the names of their \<^verbatim>\<open>json\<close> tags, with \<^verbatim>\<open>omitempty\<close> fields left
  out when they hold the zero value.
\<close>

datatype json =
    JNull
  | JBool bool
  | JNumber int
  | JString string
  | JArray "json list"
  | JObject "(string \<times> json) list"

fun json_field :: "string \<Rightarrow> json \<Rightarrow> json option" where
  "json_field k (JObject kvs) = map_of kvs k"
| "json_field k _ = None"

section \<open>Package models: the websocket types\<close>

record WSSubscription =
  RequestID :: string
  SubscriptionType :: int
  MarketSlugs :: "string list"
  ResponsesDebounced :: bool

record WSSubscribeRequest =
  Subscribe :: "WSSubscription option"

record WSUnsubscription =
  RequestID :: string

record WSUnsubscribeRequest =
  Unsubscribe :: "WSUnsubscription option"

text \<open>
  The payload structs of an inbound message are not looked into by the client; each is
  kept as the JSON document it was decoded from.
\<close>

type_synonym OrderSnapshot = json
type_synonym OrderUpdate = json
type_synonym PositionUpdate = json
type_synonym BalanceSnapshot = json
type_synonym BalanceUpdate = json
type_synonym MarketDataUpdate = json
type_synonym MarketDataLiteUpdate = json
type_synonym TradeUpdate = json

record WSMessage =
  RequestID :: string
  SubscriptionType :: string
  Error :: string
  Heartbeat :: "unit option"
  OrderSubscriptionSnapshot :: "OrderSnapshot option"
  OrderSubscriptionUpdate :: "OrderUpdate option"
  PositionSubscription :: "PositionUpdate option"
  AccountBalancesSnapshot :: "BalanceSnapshot option"
  AccountBalancesUpdate :: "BalanceUpdate option"
  MarketData :: "MarketDataUpdate option"
  MarketDataLite :: "MarketDataLiteUpdate option"
  Trade :: "TradeUpdate option"

definition SubscriptionTypeOrder :: int where
  "SubscriptionTypeOrder = 1"

definition SubscriptionTypeOrderSnapshot :: int where
  "SubscriptionTypeOrderSnapshot = 2"

definition SubscriptionTypePosition :: int where
  "SubscriptionTypePosition = 3"

definition SubscriptionTypeAccountBalance :: int where
  "SubscriptionTypeAccountBalance = 4"

definition SubscriptionTypeMarketData :: int where
  "SubscriptionTypeMarketData = 1"

definition SubscriptionTypeMarketDataLite :: int where
  "SubscriptionTypeMarketDataLite = 2"

definition SubscriptionTypeTrade :: int where
  "SubscriptionTypeTrade = 3"

text \<open>
  The two request structs are what \<^verbatim>\<open>sendPrivate\<close> and \<^verbatim>\<open>sendMarkets\<close> receive through
  their \<^verbatim>\<open>interface{}\<close> parameter.
\<close>

datatype ws_request =
    SubscribeRequest WSSubscribeRequest
  | UnsubscribeRequest WSUnsubscribeRequest

definition Marshal_WSSubscription :: "WSSubscription \<Rightarrow> json" where
  "Marshal_WSSubscription s =
     JObject ([(''request_id'', JString (WSSubscription.RequestID s)),
               (''subscription_type'', JNumber (WSSubscription.SubscriptionType s))]
              @ (if MarketSlugs s = [] then []
                 else [(''market_slugs'', JArray (map JString (MarketSlugs s)))])
              @ (if ResponsesDebounced s then [(''responses_debounced'', JBool True)]
                 else []))"

definition Marshal_WSUnsubscription :: "WSUnsubscription \<Rightarrow> json" where
  "Marshal_WSUnsubscription u = JObject [(''request_id'', JString (WSUnsubscription.RequestID u))]"

fun json_Marshal :: "ws_request \<Rightarrow> error + json" where
  "json_Marshal (SubscribeRequest r) =
     Inr (JObject [(''subscribe'',
        (case Subscribe r of None \<Rightarrow> JNull | Some s \<Rightarrow> Marshal_WSSubscription s))])"
| "json_Marshal (UnsubscribeRequest r) =
     Inr (JObject [(''unsubscribe'',
        (case Unsubscribe r of None \<Rightarrow> JNull | Some u \<Rightarrow> Marshal_WSUnsubscription u))])"

section \<open>Decimal rendering of integers\<close>

definition digit_char :: "nat \<Rightarrow> char" where
  "digit_char d =
     (if d = 0 then CHR ''0'' else if d = 1 then CHR ''1'' else if d = 2 then CHR ''2''
      else if d = 3 then CHR ''3'' else if d = 4 then CHR ''4'' else if d = 5 then CHR ''5''
      else if d = 6 then CHR ''6'' else if d = 7 then CHR ''7'' else if d = 8 then CHR ''8''
      else CHR ''9'')"

fun digits10 :: "nat \<Rightarrow> string" where
  "digits10 n =
     (if n < 10 then [digit_char n] else digits10 (n div 10) @ [digit_char (n mod 10)])"

text \<open>
  \<^verbatim>\<open>strconv.FormatInt(i, 10)\<close> and the verb \<^verbatim>\<open>%d\<close>: the signed value of a 64-bit integer
  in decimal, with a leading minus sign when negative.
\<close>

definition FormatInt :: "64 word \<Rightarrow> string" where
  "FormatInt i =
     (if sint i < 0 then CHR ''-'' # digits10 (nat (- sint i)) else digits10 (nat (sint i)))"

section \<open>Package config\<close>

record Config =
  APIKey :: string
  PrivateKey :: string
  Symbol :: string
  BaseURL :: string
  WSPrivateURL :: string
  WSMarketsURL :: string
  InsecureSkipVerify :: bool

section \<open>The transport: one websocket connection\<close>

text \<open>
  A \<^verbatim>\<open>*websocket.Conn\<close> is library code. The model keeps what the client can observe of
  it: the frames and failures that have arrived and that \<^verbatim>\<open>ReadMessage\<close> has not yet
  returned (\<open>inbox\<close>), the documents written so far (\<open>outbox\<close>), whether \<^verbatim>\<open>Close\<close> has been
  called on it, and what the network will answer to a close and to a write. As
  \<^verbatim>\<open>net.Conn\<close> documents it, \<^verbatim>\<open>Close\<close> closes the connection and unblocks any blocked read
  or write, which return errors: \<^verbatim>\<open>Close\<close> tears the connection down whatever it returns,
  and reads and writes on a closed connection fail. \<^verbatim>\<open>ReadMessage\<close> on an open
  connection with nothing to return does not return: the calling goroutine stays inside
  the call.
\<close>

datatype rd_event = Data string | Failure error

record Conn =
  inbox :: "rd_event list"
  outbox :: "json list"
  conn_closed :: bool
  close_result :: "error option"
  write_result :: "error option"

datatype rd_result = RdBlocked | RdError error | RdFrame string Conn

definition use_of_closed :: error where
  "use_of_closed = TransportError ''use of closed network connection''"

definition Conn_ReadMessage :: "Conn \<Rightarrow> rd_result" where
  "Conn_ReadMessage conn =
     (if conn_closed conn then RdError use_of_closed
      else case inbox conn of
             [] \<Rightarrow> RdBlocked
           | Data message # rest \<Rightarrow> RdFrame message (conn\<lparr>inbox := rest\<rparr>)
           | Failure err # rest \<Rightarrow> RdError err)"

definition Conn_WriteMessage :: "Conn \<Rightarrow> json \<Rightarrow> error option \<times> Conn" where
  "Conn_WriteMessage conn data =
     (if conn_closed conn then (Some use_of_closed, conn)
      else case write_result conn of
             Some err \<Rightarrow> (Some err, conn)
           | None \<Rightarrow> (None, conn\<lparr>outbox := outbox conn @ [data]\<rparr>))"

definition Conn_Close :: "Conn \<Rightarrow> error option \<times> Conn" where
  "Conn_Close conn = (close_result conn, conn\<lparr>conn_closed := True\<rparr>)"

section \<open>Channels\<close>

text \<open>
  \<open>messages\<close> is a buffered channel: a send finds room exactly when the buffer holds fewer
  elements than its capacity. \<open>done\<close> is an unbuffered channel on which nothing is ever
  sent, so all that can be observed of it is whether it has been closed; closing it twice
  panics.
\<close>

record 'a chan =
  buf :: "'a list"
  cap :: nat

definition make_chan :: "nat \<Rightarrow> 'a chan" where
  "make_chan n = \<lparr>buf = [], cap = n\<rparr>"

datatype signal = Open | Closed

text \<open>\<^verbatim>\<open>select { case ch <- v: default: }\<close>: the flag tells which branch ran.\<close>

definition select_send :: "'a chan \<Rightarrow> 'a \<Rightarrow> bool \<times> 'a chan" where
  "select_send ch v =
     (if length (buf ch) < cap ch then (True, ch\<lparr>buf := buf ch @ [v]\<rparr>) else (False, ch))"

text \<open>The consumer's receive, when a message is ready.\<close>

definition chan_recv :: "'a chan \<Rightarrow> ('a \<times> 'a chan) option" where
  "chan_recv ch = (case buf ch of [] \<Rightarrow> None | v # rest \<Rightarrow> Some (v, ch\<lparr>buf := rest\<rparr>))"

section \<open>The environment of a session\<close>

text \<open>
  What the program calls outside the repository is a parameter of the model: the dialer
  (\<^verbatim>\<open>websocket.Dialer.Dial\<close>, which yields a fresh connection or an error), the signer
  (\<^verbatim>\<open>ed25519.Sign\<close>) and the base64 encoder. A reading of the clock
  (\<^verbatim>\<open>time.Now().UnixMilli()\<close>) is passed to the function that takes it.
\<close>

type_synonym Header = "string \<rightharpoonup> string"

record env =
  Dial :: "string \<Rightarrow> Header \<Rightarrow> error + Conn"
  Sign :: "string \<Rightarrow> string \<Rightarrow> string"
  EncodeToString :: "string \<Rightarrow> string"

section \<open>Package auth\<close>

record URL =
  Scheme :: string
  Opaque :: string
  Host :: string
  Path :: string
  RawQuery :: string
  Fragment :: string

record Request =
  Method :: string
  URL :: URL
  Header :: Header

text \<open>
  \<^verbatim>\<open>SignRequest\<close> always returns a nil error; the model returns the request with its three
  headers set. \<^verbatim>\<open>Header.Set\<close> replaces the value stored under the key; keys are kept as
  the source writes them.
\<close>

definition SignRequest :: "env \<Rightarrow> 64 word \<Rightarrow> Request \<Rightarrow> Config \<Rightarrow> Request" where
  "SignRequest e now req cfg =
     (let timestamp = FormatInt now;
          method = Method req;
          path = Path (URL req);
          message = timestamp @ method @ path;
          signature = Sign e (PrivateKey cfg) message;
          signatureB64 = EncodeToString e signature
      in req\<lparr>Header := (Header req)(''X-PM-Access-Key'' \<mapsto> APIKey cfg,
                                      ''X-PM-Timestamp'' \<mapsto> timestamp,
                                      ''X-PM-Signature'' \<mapsto> signatureB64)\<rparr>)"

definition GenerateWSHeaders :: "env \<Rightarrow> 64 word \<Rightarrow> Config \<Rightarrow> Header" where
  "GenerateWSHeaders e now cfg =
     (let timestamp = FormatInt now;
          message = timestamp @ ''GET'' @ ''/v1/ws/private'';
          signature = Sign e (PrivateKey cfg) message;
          signatureB64 = EncodeToString e signature
      in Map.empty(''X-PM-Access-Key'' \<mapsto> APIKey cfg,
                   ''X-PM-Timestamp'' \<mapsto> timestamp,
                   ''X-PM-Signature'' \<mapsto> signatureB64))"

definition GenerateWSMarketsHeaders :: "env \<Rightarrow> 64 word \<Rightarrow> Config \<Rightarrow> Header" where
  "GenerateWSMarketsHeaders e now cfg =
     (let timestamp = FormatInt now;
          message = timestamp @ ''GET'' @ ''/v1/ws/markets'';
          signature = Sign e (PrivateKey cfg) message;
          signatureB64 = EncodeToString e signature
      in Map.empty(''X-PM-Access-Key'' \<mapsto> APIKey cfg,
                   ''X-PM-Timestamp'' \<mapsto> timestamp,
                   ''X-PM-Signature'' \<mapsto> signatureB64))"

section \<open>Package client: the websocket client\<close>

text \<open>
  The mutex \<open>mu\<close> is not a field of the model: every method that takes it holds it for
  its whole body, so the body is one atomic state transformer. The request counter is a
  Go \<^verbatim>\<open>int\<close>, 64 bits wide on the platforms the client targets; \<^verbatim>\<open>c.requestID++\<close> wraps.
\<close>

record WSClient =
  config :: Config
  privateConn :: "Conn option"
  marketsConn :: "Conn option"
  privateURL :: string
  marketsURL :: string
  done_chan :: signal
  messages :: "WSMessage chan"
  requestID :: "64 word"
  connected :: bool
  reconnecting :: bool

definition NewWSClient :: "Config \<Rightarrow> WSClient" where
  "NewWSClient cfg =
     \<lparr>config = cfg,
      privateConn = None,
      marketsConn = None,
      privateURL = WSPrivateURL cfg,
      marketsURL = WSMarketsURL cfg,
      done_chan = Open,
      messages = make_chan 100,
      requestID = 0,
      connected = False,
      reconnecting = False\<rparr>"

text \<open>
  The reader goroutines. A goroutine is at its \<^verbatim>\<open>select\<close>, inside \<^verbatim>\<open>ReadMessage\<close>, or has
  returned; one that dereferences a nil connection panics.
\<close>

datatype socket = Private | Markets

datatype pc = AtSelect | InReadMessage | Returned | Panicked

text \<open>
  \<^verbatim>\<open>Connect\<close> takes two readings of the clock, one for each set of headers. It returns its
  error, the client, and the goroutines it has started.
\<close>

definition Connect ::
  "env \<Rightarrow> 64 word \<Rightarrow> 64 word \<Rightarrow> WSClient \<Rightarrow> error option \<times> WSClient \<times> (socket \<times> pc) list" where
  "Connect e now1 now2 c =
     (let privateHeaders = GenerateWSHeaders e now1 (config c) in
      case Dial e (privateURL c) privateHeaders of
        Inl err \<Rightarrow> (Some (FailedConnectPrivate err), c, [])
      | Inr privateConn' \<Rightarrow>
          (let c1 = c\<lparr>privateConn := Some privateConn'\<rparr>;
               marketsHeaders = GenerateWSMarketsHeaders e now2 (config c1) in
           case Dial e (marketsURL c1) marketsHeaders of
             Inl err \<Rightarrow>
               (let (_, closedConn) = Conn_Close privateConn' in
                (Some (FailedConnectMarkets err), c1\<lparr>privateConn := Some closedConn\<rparr>, []))
           | Inr marketsConn' \<Rightarrow>
               (None,
                c1\<lparr>marketsConn := Some marketsConn', connected := True\<rparr>,
                [(Private, AtSelect), (Markets, AtSelect)])))"

text \<open>
  \<^verbatim>\<open>Close\<close> also reports, in program order, what it did to the channel and to the sockets.
\<close>

datatype effect = SignalDone | CloseSocket socket

definition Close :: "WSClient \<Rightarrow> (error option \<times> WSClient \<times> effect list) outcome" where
  "Close c =
     (if done_chan c = Closed then Panic ''close of closed channel''
      else
        let c1 = c\<lparr>done_chan := Closed\<rparr>;
            (errs1, c2, ops1) =
              (case privateConn c1 of
                 None \<Rightarrow> ([], c1, [SignalDone])
               | Some conn \<Rightarrow>
                   (let (r, conn') = Conn_Close conn in
                    ((case r of Some err \<Rightarrow> [err] | None \<Rightarrow> []),
                     c1\<lparr>privateConn := Some conn'\<rparr>,
                     [SignalDone, CloseSocket Private])));
            (errs2, c3, ops2) =
              (case marketsConn c2 of
                 None \<Rightarrow> (errs1, c2, ops1)
               | Some conn \<Rightarrow>
                   (let (r, conn') = Conn_Close conn in
                    ((case r of Some err \<Rightarrow> errs1 @ [err] | None \<Rightarrow> errs1),
                     c2\<lparr>marketsConn := Some conn'\<rparr>,
                     ops1 @ [CloseSocket Markets])));
            c4 = c3\<lparr>connected := False\<rparr>
        in if length errs2 > 0 then Return (Some (ErrorsClosing errs2), c4, ops2)
           else Return (None, c4, ops2))"

definition Messages :: "WSClient \<Rightarrow> WSMessage chan" where
  "Messages c = messages c"

text \<open>\<^verbatim>\<open>fmt.Sprintf("%s-%d", prefix, c.requestID)\<close> after the increment.\<close>

definition nextRequestID :: "string \<Rightarrow> WSClient \<Rightarrow> string \<times> WSClient" where
  "nextRequestID prefix c =
     (let c' = c\<lparr>requestID := requestID c + 1\<rparr>
      in (prefix @ ''-'' @ FormatInt (requestID c'), c'))"

text \<open>
  The reader goroutines, one step at a time. A step at the \<^verbatim>\<open>select\<close> takes the \<open>done\<close>
  branch when the channel is closed and the default branch otherwise, which enters
  \<^verbatim>\<open>ReadMessage\<close>. A step inside \<^verbatim>\<open>ReadMessage\<close> exists only when the call returns; it
  carries the rest of the loop body and comes back to the \<^verbatim>\<open>select\<close>. \<open>None\<close> says that
  the goroutine cannot move: it is blocked inside \<^verbatim>\<open>ReadMessage\<close>, or it has ended. The
  step also returns the lines it logs.
\<close>

datatype log_line =
    LogPrivateClosedNormally
  | LogPrivateReadError error
  | LogPrivateParseFailed error
  | LogPrivateHeartbeat
  | LogMarketsClosedNormally
  | LogMarketsReadError error
  | LogMarketsParseFailed error
  | LogMarketsHeartbeat
  | LogChannelFull

type_synonym unmarshal = "string \<Rightarrow> error + WSMessage"

fun readPrivate_step ::
  "unmarshal \<Rightarrow> pc \<Rightarrow> WSClient \<Rightarrow> (log_line list \<times> pc \<times> WSClient) option" where
  "readPrivate_step um AtSelect c =
     (if done_chan c = Closed then Some ([], Returned, c) else Some ([], InReadMessage, c))"
| "readPrivate_step um InReadMessage c =
     (case privateConn c of
        None \<Rightarrow> Some ([], Panicked, c)
      | Some conn \<Rightarrow>
          (case Conn_ReadMessage conn of
             RdBlocked \<Rightarrow> None
           | RdError err \<Rightarrow>
               (if IsCloseError err [CloseNormalClosure, CloseGoingAway]
                then Some ([LogPrivateClosedNormally], Returned, c)
                else Some ([LogPrivateReadError err], Returned, c))
           | RdFrame message conn' \<Rightarrow>
               (let c1 = c\<lparr>privateConn := Some conn'\<rparr> in
                case um message of
                  Inl err \<Rightarrow> Some ([LogPrivateParseFailed err], AtSelect, c1)
                | Inr msg \<Rightarrow>
                    (if Heartbeat msg \<noteq> None then Some ([LogPrivateHeartbeat], AtSelect, c1)
                     else
                       (case select_send (messages c1) msg of
                          (True, ch) \<Rightarrow> Some ([], AtSelect, c1\<lparr>messages := ch\<rparr>)
                        | (False, ch) \<Rightarrow> Some ([LogChannelFull], AtSelect, c1))))))"
| "readPrivate_step um Returned c = None"
| "readPrivate_step um Panicked c = None"

fun readMarkets_step ::
  "unmarshal \<Rightarrow> pc \<Rightarrow> WSClient \<Rightarrow> (log_line list \<times> pc \<times> WSClient) option" where
  "readMarkets_step um AtSelect c =
     (if done_chan c = Closed then Some ([], Returned, c) else Some ([], InReadMessage, c))"
| "readMarkets_step um InReadMessage c =
     (case marketsConn c of
        None \<Rightarrow> Some ([], Panicked, c)
      | Some conn \<Rightarrow>
          (case Conn_ReadMessage conn of
             RdBlocked \<Rightarrow> None
           | RdError err \<Rightarrow>
               (if IsCloseError err [CloseNormalClosure, CloseGoingAway]
                then Some ([LogMarketsClosedNormally], Returned, c)
                else Some ([LogMarketsReadError err], Returned, c))
           | RdFrame message conn' \<Rightarrow>
               (let c1 = c\<lparr>marketsConn := Some conn'\<rparr> in
                case um message of
                  Inl err \<Rightarrow> Some ([LogMarketsParseFailed err], AtSelect, c1)
                | Inr msg \<Rightarrow>
                    (if Heartbeat msg \<noteq> None then Some ([LogMarketsHeartbeat], AtSelect, c1)
                     else
                       (case select_send (messages c1) msg of
                          (True, ch) \<Rightarrow> Some ([], AtSelect, c1\<lparr>messages := ch\<rparr>)
                        | (False, ch) \<Rightarrow> Some ([LogChannelFull], AtSelect, c1))))))"
| "readMarkets_step um Returned c = None"
| "readMarkets_step um Panicked c = None"

definition sendPrivate :: "ws_request \<Rightarrow> WSClient \<Rightarrow> error option \<times> WSClient" where
  "sendPrivate msg c =
     (case privateConn c of
        None \<Rightarrow> (Some PrivateNotConnected, c)
      | Some conn \<Rightarrow>
          (case json_Marshal msg of
             Inl err \<Rightarrow> (Some (FailedMarshal err), c)
           | Inr data \<Rightarrow>
               (let (r, conn') = Conn_WriteMessage conn data
                in (r, c\<lparr>privateConn := Some conn'\<rparr>))))"

definition sendMarkets :: "ws_request \<Rightarrow> WSClient \<Rightarrow> error option \<times> WSClient" where
  "sendMarkets msg c =
     (case marketsConn c of
        None \<Rightarrow> (Some MarketsNotConnected, c)
      | Some conn \<Rightarrow>
          (case json_Marshal msg of
             Inl err \<Rightarrow> (Some (FailedMarshal err), c)
           | Inr data \<Rightarrow>
               (let (r, conn') = Conn_WriteMessage conn data
                in (r, c\<lparr>marketsConn := Some conn'\<rparr>))))"

text \<open>
  The subscribe calls return \<^verbatim>\<open>("", err)\<close> on failure and \<^verbatim>\<open>(requestID, nil)\<close> on
  success: \<open>Inl err\<close> and \<open>Inr requestID\<close>.
\<close>

definition SubscribeOrders :: "string list \<Rightarrow> WSClient \<Rightarrow> (error + string) \<times> WSClient" where
  "SubscribeOrders marketSlugs c =
     (let (rid, c1) = nextRequestID ''order'' c;
          msg = SubscribeRequest \<lparr>Subscribe = Some
                  \<lparr>WSSubscription.RequestID = rid,
                   SubscriptionType = SubscriptionTypeOrder,
                   MarketSlugs = marketSlugs,
                   ResponsesDebounced = False\<rparr>\<rparr>
      in case sendPrivate msg c1 of
           (Some err, c2) \<Rightarrow> (Inl err, c2)
         | (None, c2) \<Rightarrow> (Inr rid, c2))"

definition SubscribePositions :: "string list \<Rightarrow> WSClient \<Rightarrow> (error + string) \<times> WSClient" where
  "SubscribePositions marketSlugs c =
     (let (rid, c1) = nextRequestID ''position'' c;
          msg = SubscribeRequest \<lparr>Subscribe = Some
                  \<lparr>WSSubscription.RequestID = rid,
                   SubscriptionType = SubscriptionTypePosition,
                   MarketSlugs = marketSlugs,
                   ResponsesDebounced = False\<rparr>\<rparr>
      in case sendPrivate msg c1 of
           (Some err, c2) \<Rightarrow> (Inl err, c2)
         | (None, c2) \<Rightarrow> (Inr rid, c2))"

definition SubscribeBalances :: "WSClient \<Rightarrow> (error + string) \<times> WSClient" where
  "SubscribeBalances c =
     (let (rid, c1) = nextRequestID ''balance'' c;
          msg = SubscribeRequest \<lparr>Subscribe = Some
                  \<lparr>WSSubscription.RequestID = rid,
                   SubscriptionType = SubscriptionTypeAccountBalance,
                   MarketSlugs = [],
                   ResponsesDebounced = False\<rparr>\<rparr>
      in case sendPrivate msg c1 of
           (Some err, c2) \<Rightarrow> (Inl err, c2)
         | (None, c2) \<Rightarrow> (Inr rid, c2))"

definition SubscribeMarketData ::
  "string list \<Rightarrow> bool \<Rightarrow> WSClient \<Rightarrow> (error + string) \<times> WSClient" where
  "SubscribeMarketData marketSlugs debounced c =
     (let (rid, c1) = nextRequestID ''marketdata'' c;
          msg = SubscribeRequest \<lparr>Subscribe = Some
                  \<lparr>WSSubscription.RequestID = rid,
                   SubscriptionType = SubscriptionTypeMarketData,
                   MarketSlugs = marketSlugs,
                   ResponsesDebounced = debounced\<rparr>\<rparr>
      in case sendMarkets msg c1 of
           (Some err, c2) \<Rightarrow> (Inl err, c2)
         | (None, c2) \<Rightarrow> (Inr rid, c2))"

definition SubscribeMarketDataLite ::
  "string list \<Rightarrow> WSClient \<Rightarrow> (error + string) \<times> WSClient" where
  "SubscribeMarketDataLite marketSlugs c =
     (let (rid, c1) = nextRequestID ''marketdatalite'' c;
          msg = SubscribeRequest \<lparr>Subscribe = Some
                  \<lparr>WSSubscription.RequestID = rid,
                   SubscriptionType = SubscriptionTypeMarketDataLite,
                   MarketSlugs = marketSlugs,
                   ResponsesDebounced = False\<rparr>\<rparr>
      in case sendMarkets msg c1 of
           (Some err, c2) \<Rightarrow> (Inl err, c2)
         | (None, c2) \<Rightarrow> (Inr rid, c2))"

definition SubscribeTrades :: "string list \<Rightarrow> WSClient \<Rightarrow> (error + string) \<times> WSClient" where
  "SubscribeTrades marketSlugs c =
     (let (rid, c1) = nextRequestID ''trade'' c;
          msg = SubscribeRequest \<lparr>Subscribe = Some
                  \<lparr>WSSubscription.RequestID = rid,
                   SubscriptionType = SubscriptionTypeTrade,
                   MarketSlugs = marketSlugs,
                   ResponsesDebounced = False\<rparr>\<rparr>
      in case sendMarkets msg c1 of
           (Some err, c2) \<Rightarrow> (Inl err, c2)
         | (None, c2) \<Rightarrow> (Inr rid, c2))"

definition Unsubscribe :: "string \<Rightarrow> bool \<Rightarrow> WSClient \<Rightarrow> error option \<times> WSClient" where
  "Unsubscribe rid isPrivate c =
     (let msg = UnsubscribeRequest \<lparr>Unsubscribe = Some \<lparr>WSUnsubscription.RequestID = rid\<rparr>\<rparr>
      in if isPrivate then sendPrivate msg c else sendMarkets msg c)"

definition IsConnected :: "WSClient \<Rightarrow> bool" where
  "IsConnected c = connected c"

text \<open>
  A reader run on its own, from a given point until it can move no further: it ends
  \<open>Returned\<close> (or \<open>Panicked\<close>), or \<open>InReadMessage\<close> when it is left waiting for the next
  frame. Every frame read shortens the inbox, so the run is finite.
\<close>

definition pending :: "Conn option \<Rightarrow> nat" where
  "pending co = (case co of None \<Rightarrow> 0 | Some conn \<Rightarrow> length (inbox conn))"

fun weight :: "pc \<Rightarrow> nat \<Rightarrow> nat" where
  "weight AtSelect n = 2 * n + 2"
| "weight InReadMessage n = 2 * n + 1"
| "weight Returned n = 0"
| "weight Panicked n = 0"

function readPrivate :: "unmarshal \<Rightarrow> pc \<Rightarrow> WSClient \<Rightarrow> log_line list \<times> pc \<times> WSClient" where
  "readPrivate um p c =
     (case readPrivate_step um p c of
        None \<Rightarrow> ([], p, c)
      | Some (ls, p', c') \<Rightarrow>
          (let (ls', p'', c'') = readPrivate um p' c' in (ls @ ls', p'', c'')))"
  by pat_completeness auto
termination
  by (relation "measure (\<lambda>(um, p, c). weight p (pending (privateConn c)))")
     (auto simp: pending_def Conn_ReadMessage_def select_send_def Let_def
           elim!: readPrivate_step.elims
           split: if_splits option.splits list.splits rd_event.splits sum.splits prod.splits)

declare readPrivate.simps [simp del]

function readMarkets :: "unmarshal \<Rightarrow> pc \<Rightarrow> WSClient \<Rightarrow> log_line list \<times> pc \<times> WSClient" where
  "readMarkets um p c =
     (case readMarkets_step um p c of
        None \<Rightarrow> ([], p, c)
      | Some (ls, p', c') \<Rightarrow>
          (let (ls', p'', c'') = readMarkets um p' c' in (ls @ ls', p'', c'')))"
  by pat_completeness auto
termination
  by (relation "measure (\<lambda>(um, p, c). weight p (pending (marketsConn c)))")
     (auto simp: pending_def Conn_ReadMessage_def select_send_def Let_def
           elim!: readMarkets_step.elims
           split: if_splits option.splits list.splits rd_event.splits sum.splits prod.splits)

declare readMarkets.simps [simp del]

section \<open>A running session\<close>

text \<open>
  The goroutines of a session run interleaved. The state of a session is the client, the
  reader goroutines with the point each has reached, the lines logged, what the subscribe
  calls have returned so far, and whether the process has died of a panic. A schedule is a
  list of actions: a reader takes a step, the network delivers a frame or a failure to a
  connection that is still up, the consumer receives from \<^verbatim>\<open>Messages()\<close>, or the caller
  invokes a method of the client. An action that cannot happen (a blocked reader, an empty
  queue for the consumer) leaves the state as it is.
\<close>

record sys =
  client :: WSClient
  tasks :: "(socket \<times> pc) list"
  logged :: "log_line list"
  returned :: "(error + string) list"
  received :: "WSMessage list"
  crashed :: bool

datatype action =
    Step nat
  | Arrive socket rd_event
  | Receive
  | CallSubscribeOrders "string list"
  | CallSubscribePositions "string list"
  | CallSubscribeBalances
  | CallSubscribeMarketData "string list" bool
  | CallSubscribeMarketDataLite "string list"
  | CallSubscribeTrades "string list"
  | CallUnsubscribe string bool
  | CallClose

fun task_step ::
  "unmarshal \<Rightarrow> socket \<times> pc \<Rightarrow> WSClient \<Rightarrow> (log_line list \<times> pc \<times> WSClient) option" where
  "task_step um (Private, p) c = readPrivate_step um p c"
| "task_step um (Markets, p) c = readMarkets_step um p c"

definition arrive :: "rd_event \<Rightarrow> Conn option \<Rightarrow> Conn option" where
  "arrive ev co =
     (case co of
        None \<Rightarrow> None
      | Some conn \<Rightarrow>
          (if conn_closed conn then Some conn else Some (conn\<lparr>inbox := inbox conn @ [ev]\<rparr>)))"

definition subscribed :: "sys \<Rightarrow> (error + string) \<times> WSClient \<Rightarrow> sys" where
  "subscribed s rc = s\<lparr>client := snd rc, returned := returned s @ [fst rc]\<rparr>"

fun perform :: "unmarshal \<Rightarrow> sys \<Rightarrow> action \<Rightarrow> sys" where
  "perform um s (Step i) =
     (if i < length (tasks s) then
        (case task_step um (tasks s ! i) (client s) of
           None \<Rightarrow> s
         | Some (ls, p', c') \<Rightarrow>
             s\<lparr>client := c',
               tasks := (tasks s)[i := (fst (tasks s ! i), p')],
               logged := logged s @ ls,
               crashed := (p' = Panicked)\<rparr>)
      else s)"
| "perform um s (Arrive Private ev) =
     s\<lparr>client := (client s)\<lparr>privateConn := arrive ev (privateConn (client s))\<rparr>\<rparr>"
| "perform um s (Arrive Markets ev) =
     s\<lparr>client := (client s)\<lparr>marketsConn := arrive ev (marketsConn (client s))\<rparr>\<rparr>"
| "perform um s Receive =
     (case chan_recv (Messages (client s)) of
        None \<Rightarrow> s
      | Some (msg, ch) \<Rightarrow>
          s\<lparr>client := (client s)\<lparr>messages := ch\<rparr>, received := received s @ [msg]\<rparr>)"
| "perform um s (CallSubscribeOrders slugs) = subscribed s (SubscribeOrders slugs (client s))"
| "perform um s (CallSubscribePositions slugs) =
     subscribed s (SubscribePositions slugs (client s))"
| "perform um s CallSubscribeBalances = subscribed s (SubscribeBalances (client s))"
| "perform um s (CallSubscribeMarketData slugs debounced) =
     subscribed s (SubscribeMarketData slugs debounced (client s))"
| "perform um s (CallSubscribeMarketDataLite slugs) =
     subscribed s (SubscribeMarketDataLite slugs (client s))"
| "perform um s (CallSubscribeTrades slugs) = subscribed s (SubscribeTrades slugs (client s))"
| "perform um s (CallUnsubscribe rid isPrivate) =
     s\<lparr>client := snd (Unsubscribe rid isPrivate (client s))\<rparr>"
| "perform um s CallClose =
     (case Close (client s) of
        Panic _ \<Rightarrow> s\<lparr>crashed := True\<rparr>
      | Return (_, c', _) \<Rightarrow> s\<lparr>client := c'\<rparr>)"

text \<open>A dead process takes no further action.\<close>

fun run :: "unmarshal \<Rightarrow> sys \<Rightarrow> action list \<Rightarrow> sys" where
  "run um s [] = s"
| "run um s (a # as) = (if crashed s then s else run um (perform um s a) as)"

text \<open>
  A session starts with \<^verbatim>\<open>NewWSClient\<close> followed by one call of \<^verbatim>\<open>Connect\<close>, which
  starts the readers when it succeeds.
\<close>

definition start :: "env \<Rightarrow> 64 word \<Rightarrow> 64 word \<Rightarrow> Config \<Rightarrow> sys" where
  "start e now1 now2 cfg =
     (case Connect e now1 now2 (NewWSClient cfg) of
        (_, c, spawned) \<Rightarrow>
          \<lparr>client = c, tasks = spawned, logged = [], returned = [], received = [],
           crashed = False\<rparr>)"

section \<open>Package client: the request a REST call signs\<close>

text \<open>
  \<^verbatim>\<open>doRequest\<close> builds the URL as \<^verbatim>\<open>BaseURL + path\<close>, creates the request with
  \<^verbatim>\<open>http.NewRequest\<close> and signs it. What \<^verbatim>\<open>url.Parse\<close> does is library code; it is modelled
  as far as it decides the path that is signed. The fragment is cut at the first \<^verbatim>\<open>#\<close>; a
  control character is an error; the scheme is a letter followed by letters, digits and
  \<^verbatim>\<open>+-.\<close> up to a \<^verbatim>\<open>:\<close>, in lower case; the query starts after the first \<^verbatim>\<open>?\<close>; a URL with
  a scheme whose rest does not start with \<^verbatim>\<open>/\<close> is opaque; an authority follows \<^verbatim>\<open>//\<close> up
  to the next \<^verbatim>\<open>/\<close>; path and fragment are percent-decoded. User information, ports and
  the validation of the host are left out: the authority is kept as the host.
\<close>

definition cut :: "char \<Rightarrow> string \<Rightarrow> string \<times> string" where
  "cut sep s = (takeWhile (\<lambda>x. x \<noteq> sep) s, drop 1 (dropWhile (\<lambda>x. x \<noteq> sep) s))"

definition in_range :: "char \<Rightarrow> char \<Rightarrow> char \<Rightarrow> bool" where
  "in_range lo hi x \<longleftrightarrow> (of_char lo :: nat) \<le> of_char x \<and> (of_char x :: nat) \<le> of_char hi"

definition is_letter :: "char \<Rightarrow> bool" where
  "is_letter x \<longleftrightarrow> in_range CHR ''a'' CHR ''z'' x \<or> in_range CHR ''A'' CHR ''Z'' x"

definition is_digit :: "char \<Rightarrow> bool" where
  "is_digit x \<longleftrightarrow> in_range CHR ''0'' CHR ''9'' x"

definition is_scheme_char :: "char \<Rightarrow> bool" where
  "is_scheme_char x \<longleftrightarrow>
     is_letter x \<or> is_digit x \<or> x = CHR ''+'' \<or> x = CHR ''-'' \<or> x = CHR ''.''"

definition is_ctl :: "char \<Rightarrow> bool" where
  "is_ctl x \<longleftrightarrow> (of_char x :: nat) < 32 \<or> (of_char x :: nat) = 127"

definition to_lower :: "char \<Rightarrow> char" where
  "to_lower x = (if in_range CHR ''A'' CHR ''Z'' x then char_of (of_char x + (32 :: nat)) else x)"

definition getScheme :: "string \<Rightarrow> error + string \<times> string" where
  "getScheme rawURL =
     (case rawURL of
        [] \<Rightarrow> Inr ([], rawURL)
      | x # _ \<Rightarrow>
          (if x = CHR '':'' then Inl MissingProtocolScheme
           else if \<not> is_letter x then Inr ([], rawURL)
           else
             (let name = takeWhile is_scheme_char rawURL;
                  rest = dropWhile is_scheme_char rawURL
              in if take 1 rest = '':'' then Inr (name, drop 1 rest) else Inr ([], rawURL))))"

definition unhex :: "char \<Rightarrow> nat option" where
  "unhex x =
     (if in_range CHR ''0'' CHR ''9'' x then Some (of_char x - of_char CHR ''0'')
      else if in_range CHR ''a'' CHR ''f'' x then Some (of_char x - of_char CHR ''a'' + 10)
      else if in_range CHR ''A'' CHR ''F'' x then Some (of_char x - of_char CHR ''A'' + 10)
      else None)"

fun unescape :: "string \<Rightarrow> error + string" where
  "unescape [] = Inr []"
| "unescape (x # xs) =
     (if x = CHR ''%'' then
        (case xs of
           a # b # rest \<Rightarrow>
             (case (unhex a, unhex b) of
                (Some h, Some l) \<Rightarrow>
                  (case unescape rest of
                     Inl err \<Rightarrow> Inl err
                   | Inr s \<Rightarrow> Inr (char_of (16 * h + l) # s))
              | _ \<Rightarrow> Inl (InvalidURLEscape (take 3 (x # xs))))
         | _ \<Rightarrow> Inl (InvalidURLEscape (take 3 (x # xs))))
      else (case unescape xs of Inl err \<Rightarrow> Inl err | Inr s \<Rightarrow> Inr (x # s)))"

definition cut_authority :: "string \<Rightarrow> string \<times> string" where
  "cut_authority s = (takeWhile (\<lambda>x. x \<noteq> CHR ''/'') s, dropWhile (\<lambda>x. x \<noteq> CHR ''/'') s)"

text \<open>The unexported \<^verbatim>\<open>parse\<close> of \<^verbatim>\<open>net/url\<close>, on a raw URL without its fragment.\<close>

definition url_parse :: "string \<Rightarrow> error + URL" where
  "url_parse rawURL =
     (if list_ex is_ctl rawURL then Inl InvalidControlCharacter
      else case getScheme rawURL of
        Inl err \<Rightarrow> Inl err
      | Inr (name, rest0) \<Rightarrow>
          (let scheme = map to_lower name;
               (rest, rawQuery) = cut CHR ''?'' rest0
           in if take 1 rest \<noteq> ''/'' \<and> scheme \<noteq> [] then
                Inr \<lparr>Scheme = scheme, Opaque = rest, Host = [], Path = [],
                     RawQuery = rawQuery, Fragment = []\<rparr>
              else if take 1 rest \<noteq> ''/''
                      \<and> CHR '':'' \<in> set (takeWhile (\<lambda>x. x \<noteq> CHR ''/'') rest) then
                Inl ColonInFirstSegment
              else
                (let (host, rest) =
                       (if (scheme \<noteq> [] \<or> take 3 rest \<noteq> ''///'') \<and> take 2 rest = ''//''
                        then cut_authority (drop 2 rest) else ([], rest))
                 in case unescape rest of
                      Inl err \<Rightarrow> Inl err
                    | Inr path \<Rightarrow>
                        Inr \<lparr>Scheme = scheme, Opaque = [], Host = host, Path = path,
                             RawQuery = rawQuery, Fragment = []\<rparr>)))"

definition url_Parse :: "string \<Rightarrow> error + URL" where
  "url_Parse rawURL =
     (let (u, frag) = cut CHR ''#'' rawURL in
      case url_parse u of
        Inl err \<Rightarrow> Inl err
      | Inr url \<Rightarrow>
          (case unescape frag of
             Inl err \<Rightarrow> Inl err
           | Inr fragment \<Rightarrow> Inr (url\<lparr>Fragment := fragment\<rparr>)))"

text \<open>
  \<^verbatim>\<open>http.NewRequest\<close>: an empty method stands for \<^verbatim>\<open>GET\<close>, and a method must be a token.
\<close>

definition is_token_char :: "char \<Rightarrow> bool" where
  "is_token_char x \<longleftrightarrow>
     is_letter x \<or> is_digit x \<or> x \<in> set ''!#$%&*+-.^_|~'' \<or> x = CHR 0x27 \<or> x = CHR 0x60"

definition validMethod :: "string \<Rightarrow> bool" where
  "validMethod method \<longleftrightarrow> method \<noteq> [] \<and> list_all is_token_char method"

definition NewRequest :: "string \<Rightarrow> string \<Rightarrow> error + Request" where
  "NewRequest method url =
     (let method = (if method = [] then ''GET'' else method) in
      if \<not> validMethod method then Inl (InvalidMethod method)
      else case url_Parse url of
        Inl err \<Rightarrow> Inl err
      | Inr u \<Rightarrow> Inr \<lparr>Method = method, URL = u, Header = Map.empty\<rparr>)"

text \<open>
  \<^verbatim>\<open>doRequest\<close> up to the point where the signed request is handed to the HTTP client;
  \<open>has_body\<close> says whether a body was given.
\<close>

definition doRequest_signed ::
  "env \<Rightarrow> 64 word \<Rightarrow> Config \<Rightarrow> string \<Rightarrow> string \<Rightarrow> bool \<Rightarrow> error + Request" where
  "doRequest_signed e now cfg method path has_body =
     (let reqURL = BaseURL cfg @ path in
      case NewRequest method reqURL of
        Inl err \<Rightarrow> Inl (FailedCreateRequest err)
      | Inr req \<Rightarrow>
          (let req1 = (if has_body
                       then req\<lparr>Header := (Header req)(''Content-Type'' \<mapsto> ''application/json'')\<rparr>
                       else req)
           in Inr (SignRequest e now req1 cfg)))"

section \<open>A concrete environment\<close>

text \<open>
  Values on which the model is run in the examples below: a configuration, connections as
  a dialer hands them out, a signer that keeps its input readable, and a decoder that
  recognises the heartbeat frame, rejects what does not start like a JSON object, and
  otherwise yields a message that carries the frame text as its request id.
\<close>

definition sample_config :: Config where
  "sample_config =
     \<lparr>APIKey = ''key-id'', PrivateKey = ''secret'', Symbol = ''m1'',
      BaseURL = ''https://api.polymarket.us'',
      WSPrivateURL = ''wss://api.polymarket.us/v1/ws/private'',
      WSMarketsURL = ''wss://api.polymarket.us/v1/ws/markets'',
      InsecureSkipVerify = False\<rparr>"

definition fresh_conn :: Conn where
  "fresh_conn =
     \<lparr>inbox = [], outbox = [], conn_closed = False, close_result = None, write_result = None\<rparr>"

definition sample_sign :: "string \<Rightarrow> string \<Rightarrow> string" where
  "sample_sign key message = ''signed['' @ message @ '']''"

definition sample_env :: env where
  "sample_env =
     \<lparr>Dial = (\<lambda>url headers. Inr fresh_conn), Sign = sample_sign,
      EncodeToString = (\<lambda>bytes. bytes)\<rparr>"

definition markets_down_env :: env where
  "markets_down_env =
     \<lparr>Dial = (\<lambda>url headers.
         if url = WSMarketsURL sample_config then Inl (TransportError ''connection refused'')
         else Inr fresh_conn),
      Sign = sample_sign,
      EncodeToString = (\<lambda>bytes. bytes)\<rparr>"

definition close_fails_env :: env where
  "close_fails_env =
     \<lparr>Dial = (\<lambda>url headers.
         if url = WSPrivateURL sample_config
         then Inr (fresh_conn\<lparr>close_result := Some (TransportError ''broken pipe'')\<rparr>)
         else Inr fresh_conn),
      Sign = sample_sign,
      EncodeToString = (\<lambda>bytes. bytes)\<rparr>"

definition blank_message :: WSMessage where
  "blank_message =
     \<lparr>WSMessage.RequestID = [], SubscriptionType = [], Error = [], Heartbeat = None,
      OrderSubscriptionSnapshot = None, OrderSubscriptionUpdate = None,
      PositionSubscription = None, AccountBalancesSnapshot = None,
      AccountBalancesUpdate = None, MarketData = None, MarketDataLite = None,
      Trade = None\<rparr>"

definition heartbeat_frame :: string where
  "heartbeat_frame = ''{\"heartbeat\":{}}''"

definition sample_unmarshal :: unmarshal where
  "sample_unmarshal message =
     (if message = heartbeat_frame then Inr (blank_message\<lparr>Heartbeat := Some ()\<rparr>)
      else if take 1 message = ''{'' then Inr (blank_message\<lparr>WSMessage.RequestID := message\<rparr>)
      else Inl (TransportError ''invalid character''))"

definition numbered_frame :: "nat \<Rightarrow> string" where
  "numbered_frame n = ''{\"requestId\":\"'' @ digits10 n @ ''\"}''"

definition flooded_client :: WSClient where
  "flooded_client =
     (client (start sample_env 0 0 sample_config))
       \<lparr>privateConn := Some (fresh_conn\<lparr>inbox := map Data (map numbered_frame [1..<102])\<rparr>)\<rparr>"

definition heartbeat_schedule :: "action list" where
  "heartbeat_schedule =
     [Arrive Private (Data heartbeat_frame), Arrive Private (Data (numbered_frame 1)),
      Arrive Markets (Data heartbeat_frame), Arrive Markets (Data (numbered_frame 2)),
      Step 0, Step 0, Step 0, Step 0, Step 1, Step 1, Step 1, Step 1, Receive]"

text \<open>
  Two client states agree on everything but the request counter and the traffic of the
  two connections.
\<close>

definition same_but_conns :: "WSClient \<Rightarrow> WSClient \<Rightarrow> bool" where
  "same_but_conns c c' \<longleftrightarrow>
     messages c' = messages c \<and> done_chan c' = done_chan c \<and> connected c' = connected c
     \<and> map_option conn_closed (privateConn c') = map_option conn_closed (privateConn c)
     \<and> map_option conn_closed (marketsConn c') = map_option conn_closed (marketsConn c)"

section \<open>Notions used in the statements\<close>

text \<open>The documents written so far on a socket of the client; none when it is absent.\<close>

definition written :: "Conn option \<Rightarrow> json list" where
  "written co = (case co of None \<Rightarrow> [] | Some conn \<Rightarrow> outbox conn)"

text \<open>The subscription frame for a request id, a type code, market slugs and a debounce flag.\<close>

definition subscribe_frame :: "string \<Rightarrow> int \<Rightarrow> string list \<Rightarrow> bool \<Rightarrow> json" where
  "subscribe_frame rid ty slugs debounced =
     JObject [(''subscribe'', Marshal_WSSubscription
        \<lparr>WSSubscription.RequestID = rid, SubscriptionType = ty, MarketSlugs = slugs,
         ResponsesDebounced = debounced\<rparr>)]"

text \<open>What closing a socket of the client contributes to the aggregate error.\<close>

definition close_error :: "Conn option \<Rightarrow> error list" where
  "close_error co =
     (case co of
        None \<Rightarrow> []
      | Some conn \<Rightarrow> (case close_result conn of None \<Rightarrow> [] | Some err \<Rightarrow> [err]))"

definition closed_socket :: "Conn option \<Rightarrow> Conn option" where
  "closed_socket co = map_option (\<lambda>conn. conn\<lparr>conn_closed := True\<rparr>) co"

definition socket_effect :: "socket \<Rightarrow> Conn option \<Rightarrow> effect list" where
  "socket_effect sock co = (case co of None \<Rightarrow> [] | Some conn \<Rightarrow> [CloseSocket sock])"

text \<open>
  Two facts about a running session. Its readers are sound when none has panicked and,
  if there are readers at all, both sockets are there. It is shut down when the
  cancellation channel is closed and close has been called on every socket that is there.
\<close>

definition readers_sound :: "sys \<Rightarrow> bool" where
  "readers_sound s \<longleftrightarrow>
     list_all (\<lambda>t. snd t \<noteq> Panicked) (tasks s)
     \<and> (tasks s = [] \<or> (privateConn (client s) \<noteq> None \<and> marketsConn (client s) \<noteq> None))"

definition torn_down :: "Conn option \<Rightarrow> bool" where
  "torn_down co = (case co of None \<Rightarrow> True | Some conn \<Rightarrow> conn_closed conn)"

definition shut_down :: "WSClient \<Rightarrow> bool" where
  "shut_down c \<longleftrightarrow>
     done_chan c = Closed \<and> torn_down (privateConn c) \<and> torn_down (marketsConn c)"

definition failing_close_session :: sys where
  "failing_close_session =
     run sample_unmarshal (start close_fails_env 0 0 sample_config) ([Step 0] @ CallClose # [])"

text \<open>
  Reading a decimal rendering back, and the prefixes the six subscribe calls pass to
  \<^verbatim>\<open>nextRequestID\<close>.
\<close>

definition digit_value :: "char \<Rightarrow> nat" where
  "digit_value x =
     (if x = CHR ''0'' then 0 else if x = CHR ''1'' then 1 else if x = CHR ''2'' then 2
      else if x = CHR ''3'' then 3 else if x = CHR ''4'' then 4 else if x = CHR ''5'' then 5
      else if x = CHR ''6'' then 6 else if x = CHR ''7'' then 7 else if x = CHR ''8'' then 8
      else 9)"

definition undigits :: "string \<Rightarrow> nat" where
  "undigits s = foldl (\<lambda>a x. 10 * a + digit_value x) 0 s"

definition request_prefixes :: "string list" where
  "request_prefixes =
     [''order'', ''position'', ''balance'', ''marketdata'', ''marketdatalite'', ''trade'']"

text \<open>
  The request ids a session has handed out are numbered when the counter equals the number
  of subscribe calls made so far and the id of the call number \<open>k + 1\<close>, if the call
  succeeded, renders the counter value \<open>k + 1\<close> behind one of the prefixes.
\<close>

definition ids_numbered :: "sys \<Rightarrow> bool" where
  "ids_numbered s \<longleftrightarrow>
     requestID (client s) = of_nat (length (returned s))
     \<and> (\<forall>k < length (returned s). \<forall>x. returned s ! k = Inr x \<longrightarrow>
          (\<exists>p \<in> set request_prefixes. x = p @ ''-'' @ FormatInt (of_nat (Suc k))))"

section \<open>Properties\<close>

subsection \<open>A reader run over the frames that have arrived\<close>

lemma select_send_bound:
  "length (buf ch) \<le> cap ch \<Longrightarrow> length (buf (snd (select_send ch v))) \<le> cap ch"
  by (simp add: select_send_def)

lemma select_send_cap: "cap (snd (select_send ch v)) = cap ch"
  by (simp add: select_send_def)

lemma readPrivate_at_select_open:
  "done_chan c = Open \<Longrightarrow> readPrivate um AtSelect c = readPrivate um InReadMessage c"
  by (subst readPrivate.simps) (simp split: prod.splits)

lemma readPrivate_parked:
  "privateConn c = Some conn \<Longrightarrow> \<not> conn_closed conn \<Longrightarrow> inbox conn = [] \<Longrightarrow>
   readPrivate um InReadMessage c = ([], InReadMessage, c)"
  by (subst readPrivate.simps) (simp add: Conn_ReadMessage_def)

lemma readPrivate_forward:
  assumes "privateConn c = Some conn" "\<not> conn_closed conn" "inbox conn = Data f # rest"
    and "um f = Inr m" "Heartbeat m = None"
  shows "readPrivate um InReadMessage c =
     (let c1 = c\<lparr>privateConn := Some (conn\<lparr>inbox := rest\<rparr>)\<rparr>;
          full = \<not> length (buf (messages c)) < cap (messages c);
          c2 = (if full then c1 else c1\<lparr>messages := (messages c)\<lparr>buf := buf (messages c) @ [m]\<rparr>\<rparr>);
          (ls, p, c') = readPrivate um AtSelect c2
      in ((if full then [LogChannelFull] else []) @ ls, p, c'))"
  using assms
  by (subst readPrivate.simps) (simp add: Conn_ReadMessage_def select_send_def Let_def split: prod.splits)

lemma readPrivate_frames:
  assumes "privateConn c = Some conn" "\<not> conn_closed conn" "inbox conn = map Data fs"
    and "done_chan c = Open"
    and "\<forall>f\<in>set fs. \<exists>m. um f = Inr m \<and> Heartbeat m = None"
  shows "readPrivate um AtSelect c =
     (replicate (length fs - (cap (messages c) - length (buf (messages c)))) LogChannelFull,
      InReadMessage,
      c\<lparr>privateConn := Some (conn\<lparr>inbox := []\<rparr>),
        messages := (messages c)\<lparr>buf := buf (messages c) @
           take (cap (messages c) - length (buf (messages c))) (map (\<lambda>f. projr (um f)) fs)\<rparr>\<rparr>)"
  using assms
proof (induction fs arbitrary: c conn)
  case Nil
  then show ?case
    by (simp add: readPrivate_at_select_open readPrivate_parked)
next
  case (Cons f fs)
  from Cons.prems obtain m where m: "um f = Inr m" "Heartbeat m = None" by auto
  let ?conn1 = "conn\<lparr>inbox := map Data fs\<rparr>"
  let ?c1 = "c\<lparr>privateConn := Some ?conn1\<rparr>"
  show ?case
  proof (cases "length (buf (messages c)) < cap (messages c)")
    case True
    let ?c2 = "?c1\<lparr>messages := (messages c)\<lparr>buf := buf (messages c) @ [m]\<rparr>\<rparr>"
    have ih: "readPrivate um AtSelect ?c2 = 
       (replicate (length fs - (cap (messages ?c2) - length (buf (messages ?c2)))) LogChannelFull,
      InReadMessage,
      ?c2\<lparr>privateConn := Some (?conn1\<lparr>inbox := []\<rparr>),
        messages := (messages ?c2)\<lparr>buf := buf (messages ?c2) @
           take (cap (messages ?c2) - length (buf (messages ?c2))) (map (\<lambda>f. projr (um f)) fs)\<rparr>\<rparr>)"
      using Cons.prems by (intro Cons.IH) auto
    have "readPrivate um AtSelect c = readPrivate um InReadMessage c"
      using Cons.prems by (simp add: readPrivate_at_select_open)
    also have "\<dots> = (let (ls, p, c') = readPrivate um AtSelect ?c2 in (ls, p, c'))"
      using Cons.prems m True
      by (subst readPrivate_forward[where conn=conn and f=f and rest="map Data fs" and m=m]) (simp_all add: Let_def)
    finally show ?thesis
      using True m by (simp add: ih take_Cons' Suc_diff_le) 
  next
    case False
    have ih: "readPrivate um AtSelect ?c1 = 
       (replicate (length fs - (cap (messages ?c1) - length (buf (messages ?c1)))) LogChannelFull,
      InReadMessage,
      ?c1\<lparr>privateConn := Some (?conn1\<lparr>inbox := []\<rparr>),
        messages := (messages ?c1)\<lparr>buf := buf (messages ?c1) @
           take (cap (messages ?c1) - length (buf (messages ?c1))) (map (\<lambda>f. projr (um f)) fs)\<rparr>\<rparr>)"
      using Cons.prems by (intro Cons.IH) auto
    have "readPrivate um AtSelect c = readPrivate um InReadMessage c"
      using Cons.prems by (simp add: readPrivate_at_select_open)
    also have "\<dots> = (let (ls, p, c') = readPrivate um AtSelect ?c1 in (LogChannelFull # ls, p, c'))"
      using Cons.prems m False
      by (subst readPrivate_forward[where conn=conn and f=f and rest="map Data fs" and m=m]) (simp_all add: Let_def)
    finally show ?thesis
      using False m by (simp add: ih Suc_diff_le)
  qed
qed

lemma readMarkets_at_select_open:
  "done_chan c = Open \<Longrightarrow> readMarkets um AtSelect c = readMarkets um InReadMessage c"
  by (subst readMarkets.simps) (simp split: prod.splits)

lemma readMarkets_parked:
  "marketsConn c = Some conn \<Longrightarrow> \<not> conn_closed conn \<Longrightarrow> inbox conn = [] \<Longrightarrow>
   readMarkets um InReadMessage c = ([], InReadMessage, c)"
  by (subst readMarkets.simps) (simp add: Conn_ReadMessage_def)

lemma readMarkets_forward:
  assumes "marketsConn c = Some conn" "\<not> conn_closed conn" "inbox conn = Data f # rest"
    and "um f = Inr m" "Heartbeat m = None"
  shows "readMarkets um InReadMessage c =
     (let c1 = c\<lparr>marketsConn := Some (conn\<lparr>inbox := rest\<rparr>)\<rparr>;
          full = \<not> length (buf (messages c)) < cap (messages c);
          c2 = (if full then c1 else c1\<lparr>messages := (messages c)\<lparr>buf := buf (messages c) @ [m]\<rparr>\<rparr>);
          (ls, p, c') = readMarkets um AtSelect c2
      in ((if full then [LogChannelFull] else []) @ ls, p, c'))"
  using assms
  by (subst readMarkets.simps) (simp add: Conn_ReadMessage_def select_send_def Let_def split: prod.splits)

lemma readMarkets_frames:
  assumes "marketsConn c = Some conn" "\<not> conn_closed conn" "inbox conn = map Data fs"
    and "done_chan c = Open"
    and "\<forall>f\<in>set fs. \<exists>m. um f = Inr m \<and> Heartbeat m = None"
  shows "readMarkets um AtSelect c =
     (replicate (length fs - (cap (messages c) - length (buf (messages c)))) LogChannelFull,
      InReadMessage,
      c\<lparr>marketsConn := Some (conn\<lparr>inbox := []\<rparr>),
        messages := (messages c)\<lparr>buf := buf (messages c) @
           take (cap (messages c) - length (buf (messages c))) (map (\<lambda>f. projr (um f)) fs)\<rparr>\<rparr>)"
  using assms
proof (induction fs arbitrary: c conn)
  case Nil
  then show ?case
    by (simp add: readMarkets_at_select_open readMarkets_parked)
next
  case (Cons f fs)
  from Cons.prems obtain m where m: "um f = Inr m" "Heartbeat m = None" by auto
  let ?conn1 = "conn\<lparr>inbox := map Data fs\<rparr>"
  let ?c1 = "c\<lparr>marketsConn := Some ?conn1\<rparr>"
  show ?case
  proof (cases "length (buf (messages c)) < cap (messages c)")
    case True
    let ?c2 = "?c1\<lparr>messages := (messages c)\<lparr>buf := buf (messages c) @ [m]\<rparr>\<rparr>"
    have ih: "readMarkets um AtSelect ?c2 = 
       (replicate (length fs - (cap (messages ?c2) - length (buf (messages ?c2)))) LogChannelFull,
      InReadMessage,
      ?c2\<lparr>marketsConn := Some (?conn1\<lparr>inbox := []\<rparr>),
        messages := (messages ?c2)\<lparr>buf := buf (messages ?c2) @
           take (cap (messages ?c2) - length (buf (messages ?c2))) (map (\<lambda>f. projr (um f)) fs)\<rparr>\<rparr>)"
      using Cons.prems by (intro Cons.IH) auto
    have "readMarkets um AtSelect c = readMarkets um InReadMessage c"
      using Cons.prems by (simp add: readMarkets_at_select_open)
    also have "\<dots> = (let (ls, p, c') = readMarkets um AtSelect ?c2 in (ls, p, c'))"
      using Cons.prems m True
      by (subst readMarkets_forward[where conn=conn and f=f and rest="map Data fs" and m=m]) (simp_all add: Let_def)
    finally show ?thesis
      using True m by (simp add: ih take_Cons' Suc_diff_le) 
  next
    case False
    have ih: "readMarkets um AtSelect ?c1 = 
       (replicate (length fs - (cap (messages ?c1) - length (buf (messages ?c1)))) LogChannelFull,
      InReadMessage,
      ?c1\<lparr>marketsConn := Some (?conn1\<lparr>inbox := []\<rparr>),
        messages := (messages ?c1)\<lparr>buf := buf (messages ?c1) @
           take (cap (messages ?c1) - length (buf (messages ?c1))) (map (\<lambda>f. projr (um f)) fs)\<rparr>\<rparr>)"
      using Cons.prems by (intro Cons.IH) auto
    have "readMarkets um AtSelect c = readMarkets um InReadMessage c"
      using Cons.prems by (simp add: readMarkets_at_select_open)
    also have "\<dots> = (let (ls, p, c') = readMarkets um AtSelect ?c1 in (LogChannelFull # ls, p, c'))"
      using Cons.prems m False
      by (subst readMarkets_forward[where conn=conn and f=f and rest="map Data fs" and m=m]) (simp_all add: Let_def)
    finally show ?thesis
      using False m by (simp add: ih Suc_diff_le)
  qed
qed

subsection \<open>What each operation changes\<close>

lemma readPrivate_step_effect:
  assumes "readPrivate_step um p c = Some (ls, p', c')"
  shows "done_chan c' = done_chan c \<and> requestID c' = requestID c \<and> connected c' = connected c
       \<and> marketsConn c' = marketsConn c
       \<and> map_option conn_closed (privateConn c') = map_option conn_closed (privateConn c)
       \<and> (messages c' = messages c
           \<or> (\<exists>m. Heartbeat m = None \<and> length (buf (messages c)) < cap (messages c)
                 \<and> messages c' = (messages c)\<lparr>buf := buf (messages c) @ [m]\<rparr>))"
  using assms
  by (cases p)
     (auto simp: Conn_ReadMessage_def select_send_def Let_def
           split: if_splits option.splits list.splits rd_event.splits sum.splits prod.splits)

lemma readMarkets_step_effect:
  assumes "readMarkets_step um p c = Some (ls, p', c')"
  shows "done_chan c' = done_chan c \<and> requestID c' = requestID c \<and> connected c' = connected c
       \<and> privateConn c' = privateConn c
       \<and> map_option conn_closed (marketsConn c') = map_option conn_closed (marketsConn c)
       \<and> (messages c' = messages c
           \<or> (\<exists>m. Heartbeat m = None \<and> length (buf (messages c)) < cap (messages c)
                 \<and> messages c' = (messages c)\<lparr>buf := buf (messages c) @ [m]\<rparr>))"
  using assms
  by (cases p)
     (auto simp: Conn_ReadMessage_def select_send_def Let_def
           split: if_splits option.splits list.splits rd_event.splits sum.splits prod.splits)

lemma task_step_effect:
  assumes "task_step um t c = Some (ls, p', c')"
  shows "done_chan c' = done_chan c \<and> requestID c' = requestID c \<and> connected c' = connected c
       \<and> map_option conn_closed (privateConn c') = map_option conn_closed (privateConn c)
       \<and> map_option conn_closed (marketsConn c') = map_option conn_closed (marketsConn c)
       \<and> (messages c' = messages c
           \<or> (\<exists>m. Heartbeat m = None \<and> length (buf (messages c)) < cap (messages c)
                 \<and> messages c' = (messages c)\<lparr>buf := buf (messages c) @ [m]\<rparr>))"
proof (cases t)
  case (Pair sock p)
  show ?thesis
  proof (cases sock)
    case Private
    with Pair assms have "readPrivate_step um p c = Some (ls, p', c')" by simp
    from readPrivate_step_effect[OF this] show ?thesis by simp
  next
    case Markets
    with Pair assms have "readMarkets_step um p c = Some (ls, p', c')" by simp
    from readMarkets_step_effect[OF this] show ?thesis by simp
  qed
qed

lemma sendPrivate_effect:
  "messages (snd (sendPrivate m c)) = messages c \<and> done_chan (snd (sendPrivate m c)) = done_chan c
   \<and> requestID (snd (sendPrivate m c)) = requestID c \<and> connected (snd (sendPrivate m c)) = connected c
   \<and> marketsConn (snd (sendPrivate m c)) = marketsConn c
   \<and> map_option conn_closed (privateConn (snd (sendPrivate m c))) = map_option conn_closed (privateConn c)"
  by (auto simp: sendPrivate_def Conn_WriteMessage_def split: option.splits sum.splits prod.splits)

lemma sendMarkets_effect:
  "messages (snd (sendMarkets m c)) = messages c \<and> done_chan (snd (sendMarkets m c)) = done_chan c
   \<and> requestID (snd (sendMarkets m c)) = requestID c \<and> connected (snd (sendMarkets m c)) = connected c
   \<and> privateConn (snd (sendMarkets m c)) = privateConn c
   \<and> map_option conn_closed (marketsConn (snd (sendMarkets m c))) = map_option conn_closed (marketsConn c)"
  by (auto simp: sendMarkets_def Conn_WriteMessage_def split: option.splits sum.splits prod.splits)

lemma nextRequestID_effect:
  "snd (nextRequestID p c) = c\<lparr>requestID := requestID c + 1\<rparr>"
  "fst (nextRequestID p c) = p @ ''-'' @ FormatInt (requestID c + 1)"
  by (simp_all add: nextRequestID_def Let_def)

lemmas subscribe_defs =
  SubscribeOrders_def SubscribePositions_def SubscribeBalances_def
  SubscribeMarketData_def SubscribeMarketDataLite_def SubscribeTrades_def

lemma send_same:
  "same_but_conns c (snd (sendPrivate m c))" "same_but_conns c (snd (sendMarkets m c))"
  using sendPrivate_effect[of m c] sendMarkets_effect[of m c]
  by (simp_all add: same_but_conns_def)

lemma send_requestID:
  "requestID (snd (sendPrivate m c)) = requestID c" "requestID (snd (sendMarkets m c)) = requestID c"
  using sendPrivate_effect[of m c] sendMarkets_effect[of m c] by simp_all

lemma same_but_conns_bump:
  "same_but_conns (c\<lparr>requestID := r\<rparr>) c' = same_but_conns c c'"
  by (simp add: same_but_conns_def)

lemma snd_sent:
  "snd (case x of (Some err, c2) \<Rightarrow> (Inl err, c2) | (None, c2) \<Rightarrow> (Inr rid, c2)) = snd x"
  by (cases x) (auto split: option.splits)

lemma fst_sent:
  "fst (case x of (Some err, c2) \<Rightarrow> (Inl err, c2) | (None, c2) \<Rightarrow> (Inr rid, c2)) =
     (case fst x of Some err \<Rightarrow> Inl err | None \<Rightarrow> Inr rid)"
  by (cases x) (auto split: option.splits)

lemma subscribe_snd:
  "snd (SubscribeOrders sl c) = snd (sendPrivate (SubscribeRequest \<lparr>Subscribe = Some
                  \<lparr>WSSubscription.RequestID = ''order-'' @ FormatInt (requestID c + 1),
                   SubscriptionType = SubscriptionTypeOrder,
                   MarketSlugs = sl,
                   ResponsesDebounced = False\<rparr>\<rparr>) (c\<lparr>requestID := requestID c + 1\<rparr>))"
  by (simp add: subscribe_defs nextRequestID_def Let_def snd_sent)

lemma subscribe_same:
  "same_but_conns c (snd (SubscribeOrders sl c))"
  "same_but_conns c (snd (SubscribePositions sl c))"
  "same_but_conns c (snd (SubscribeBalances c))"
  "same_but_conns c (snd (SubscribeMarketData sl d c))"
  "same_but_conns c (snd (SubscribeMarketDataLite sl c))"
  "same_but_conns c (snd (SubscribeTrades sl c))"
  using send_same(1)[of "c\<lparr>requestID := requestID c + 1\<rparr>"] send_same(2)[of "c\<lparr>requestID := requestID c + 1\<rparr>"]
  by (simp_all add: subscribe_defs nextRequestID_def Let_def snd_sent same_but_conns_bump)

lemma subscribe_requestID:
  "requestID (snd (SubscribeOrders sl c)) = requestID c + 1"
  "requestID (snd (SubscribePositions sl c)) = requestID c + 1"
  "requestID (snd (SubscribeBalances c)) = requestID c + 1"
  "requestID (snd (SubscribeMarketData sl d c)) = requestID c + 1"
  "requestID (snd (SubscribeMarketDataLite sl c)) = requestID c + 1"
  "requestID (snd (SubscribeTrades sl c)) = requestID c + 1"
  by (simp_all add: subscribe_defs nextRequestID_def Let_def snd_sent send_requestID)

lemma subscribe_fst:
  "fst (SubscribeOrders sl c) = Inr rid \<Longrightarrow> rid = ''order-'' @ FormatInt (requestID c + 1)"
  "fst (SubscribePositions sl c) = Inr rid \<Longrightarrow> rid = ''position-'' @ FormatInt (requestID c + 1)"
  "fst (SubscribeBalances c) = Inr rid \<Longrightarrow> rid = ''balance-'' @ FormatInt (requestID c + 1)"
  "fst (SubscribeMarketData sl d c) = Inr rid \<Longrightarrow> rid = ''marketdata-'' @ FormatInt (requestID c + 1)"
  "fst (SubscribeMarketDataLite sl c) = Inr rid \<Longrightarrow> rid = ''marketdatalite-'' @ FormatInt (requestID c + 1)"
  "fst (SubscribeTrades sl c) = Inr rid \<Longrightarrow> rid = ''trade-'' @ FormatInt (requestID c + 1)"
  by (auto simp: subscribe_defs nextRequestID_def Let_def fst_sent split: option.splits)

lemma Unsubscribe_same: "same_but_conns c (snd (Unsubscribe rid p c))"
  by (simp add: Unsubscribe_def Let_def send_same)

lemma Unsubscribe_requestID: "requestID (snd (Unsubscribe rid p c)) = requestID c"
  by (simp add: Unsubscribe_def Let_def send_requestID)

lemma Close_effect:
  assumes "Close c = Return (r, c', ops)"
  shows "done_chan c = Open \<and> done_chan c' = Closed \<and> connected c' = False
       \<and> messages c' = messages c \<and> requestID c' = requestID c
       \<and> map_option conn_closed (privateConn c') = map_option (\<lambda>_. True) (privateConn c)
       \<and> map_option conn_closed (marketsConn c') = map_option (\<lambda>_. True) (marketsConn c)"
  using assms
  by (auto simp: Close_def Conn_Close_def Let_def split: if_splits option.splits prod.splits signal.splits)
     (metis signal.exhaust)+

lemma Close_panics: "Close c = Panic x \<longleftrightarrow> done_chan c = Closed \<and> x = ''close of closed channel''"
  by (auto simp: Close_def Conn_Close_def Let_def split: if_splits option.splits prod.splits)

lemma subscribed_client [simp]:
  "client (subscribed s rc) = snd rc" "tasks (subscribed s rc) = tasks s"
  "crashed (subscribed s rc) = crashed s" "returned (subscribed s rc) = returned s @ [fst rc]"
  by (simp_all add: subscribed_def)

lemma perform_messages:
  "messages (client (perform um s a)) = messages (client s)
   \<or> (\<exists>m. Heartbeat m = None \<and> length (buf (messages (client s))) < cap (messages (client s))
         \<and> messages (client (perform um s a)) =
             (messages (client s))\<lparr>buf := buf (messages (client s)) @ [m]\<rparr>)
   \<or> (\<exists>m rest. buf (messages (client s)) = m # rest
         \<and> messages (client (perform um s a)) = (messages (client s))\<lparr>buf := rest\<rparr>)"
proof (cases a)
  case (Step i)
  show ?thesis
  proof (cases "i < length (tasks s)")
    case True
    show ?thesis
    proof (cases "task_step um (tasks s ! i) (client s)")
      case None
      with Step True show ?thesis by simp
    next
      case (Some r)
      obtain ls p' c' where r: "r = (ls, p', c')" by (cases r) auto
      from task_step_effect[OF Some[unfolded r]] Step True Some r show ?thesis by auto
    qed
  next
    case False
    with Step show ?thesis by simp
  qed
next
  case (Arrive sock ev)
  then show ?thesis by (cases sock) simp_all
next
  case Receive
  then show ?thesis
    by (auto simp: chan_recv_def Messages_def split: list.splits)
next
  case (CallSubscribeOrders sl)
  with subscribe_same(1)[of "client s" sl] show ?thesis by (simp add: same_but_conns_def)
next
  case (CallSubscribePositions sl)
  with subscribe_same(2)[of "client s" sl] show ?thesis by (simp add: same_but_conns_def)
next
  case CallSubscribeBalances
  with subscribe_same(3)[of "client s"] show ?thesis by (simp add: same_but_conns_def)
next
  case (CallSubscribeMarketData sl d)
  with subscribe_same(4)[of "client s" sl d] show ?thesis by (simp add: same_but_conns_def)
next
  case (CallSubscribeMarketDataLite sl)
  with subscribe_same(5)[of "client s" sl] show ?thesis by (simp add: same_but_conns_def)
next
  case (CallSubscribeTrades sl)
  with subscribe_same(6)[of "client s" sl] show ?thesis by (simp add: same_but_conns_def)
next
  case (CallUnsubscribe rid p)
  with Unsubscribe_same[of "client s" rid p] show ?thesis by (simp add: same_but_conns_def)
next
  case CallClose
  show ?thesis
  proof (cases "Close (client s)")
    case (Panic x)
    with CallClose show ?thesis by simp
  next
    case (Return rc)
    obtain r c' ops where "rc = (r, c', ops)" by (cases rc) auto
    with Return CallClose Close_effect[of "client s" r c' ops] show ?thesis by simp
  qed
qed

lemma run_queue_bound:
  "length (buf (messages (client s))) \<le> cap (messages (client s)) \<Longrightarrow>
   length (buf (messages (client (run um s acts)))) \<le> cap (messages (client s))
   \<and> cap (messages (client (run um s acts))) = cap (messages (client s))"
proof (induction acts arbitrary: s)
  case Nil
  then show ?case by simp
next
  case (Cons a acts)
  from perform_messages[of um s a] Cons.prems
  have "length (buf (messages (client (perform um s a)))) \<le> cap (messages (client (perform um s a)))
      \<and> cap (messages (client (perform um s a))) = cap (messages (client s))"
    by auto
  with Cons.IH[of "perform um s a"] Cons.prems show ?case by simp
qed

lemma run_no_heartbeat:
  "\<forall>m\<in>set (buf (messages (client s))). Heartbeat m = None \<Longrightarrow>
   \<forall>m\<in>set (buf (messages (client (run um s acts)))). Heartbeat m = None"
proof (induction acts arbitrary: s)
  case Nil
  then show ?case by simp
next
  case (Cons a acts)
  from perform_messages[of um s a] Cons.prems
  have "\<forall>m\<in>set (buf (messages (client (perform um s a)))). Heartbeat m = None"
    by auto
  with Cons.IH[of "perform um s a"] Cons.prems show ?case by simp
qed

lemma start_messages: "messages (client (start e n1 n2 cfg)) = make_chan 100"
  by (simp add: start_def Connect_def NewWSClient_def Let_def Conn_Close_def split: sum.splits prod.splits)

lemmas sample_defs = sample_config_def fresh_conn_def sample_env_def sample_sign_def
  blank_message_def heartbeat_frame_def sample_unmarshal_def numbered_frame_def

lemmas model_defs = start_def Connect_def NewWSClient_def make_chan_def GenerateWSHeaders_def
  GenerateWSMarketsHeaders_def Conn_ReadMessage_def Conn_WriteMessage_def Conn_Close_def
  select_send_def chan_recv_def Messages_def arrive_def Let_def

subsection \<open>The inbound queue\<close>

lemma numbered_frames_decode:
  "sample_unmarshal (numbered_frame n) = Inr (blank_message\<lparr>WSMessage.RequestID := numbered_frame n\<rparr>)"
  by (simp add: sample_unmarshal_def numbered_frame_def heartbeat_frame_def)

text \<open>
  C1. The inbound queue is created with room for 100 messages. Whatever the schedule of a
  session, the queue never holds more than 100 messages. A push never makes the queue
  exceed its capacity, whatever the queue holds, and a reader that has a frame in hand
  always finishes its iteration and is back at its \<^verbatim>\<open>select\<close>: the push does not block.
  When 101 frames that decode to messages other than heartbeats have arrived on one
  socket and nothing has been consumed, the reader of that socket leaves messages 1 to 100
  in the queue in arrival order, logs one dropped message (the last) and waits for the next
  frame.
\<close>

theorem inbound_queue_bounded:
  "cap (messages (NewWSClient cfg)) = 100
   \<and> length (buf (messages (client (run um (start e now1 now2 cfg) acts)))) \<le> 100
   \<and> (length (buf ch) \<le> cap ch \<longrightarrow> length (buf (snd (select_send ch v))) \<le> cap ch)
   \<and> (privateConn c = Some conn \<and> Conn_ReadMessage conn = RdFrame message conn' \<longrightarrow>
        (\<exists>ls c'. readPrivate_step um InReadMessage c = Some (ls, AtSelect, c')))
   \<and> (marketsConn c = Some conn \<and> Conn_ReadMessage conn = RdFrame message conn' \<longrightarrow>
        (\<exists>ls c'. readMarkets_step um InReadMessage c = Some (ls, AtSelect, c')))
   \<and> (length fs = 101 \<and> (\<forall>f\<in>set fs. \<exists>m. um f = Inr m \<and> Heartbeat m = None)
        \<and> \<not> conn_closed conn \<and> inbox conn = map Data fs
        \<and> done_chan c = Open \<and> messages c = make_chan 100 \<longrightarrow>
        (privateConn c = Some conn \<longrightarrow>
           readPrivate um AtSelect c =
             ([LogChannelFull], InReadMessage,
              c\<lparr>privateConn := Some (conn\<lparr>inbox := []\<rparr>),
                messages := \<lparr>buf = map (\<lambda>f. projr (um f)) (take 100 fs), cap = 100\<rparr>\<rparr>))
        \<and> (marketsConn c = Some conn \<longrightarrow>
           readMarkets um AtSelect c =
             ([LogChannelFull], InReadMessage,
              c\<lparr>marketsConn := Some (conn\<lparr>inbox := []\<rparr>),
                messages := \<lparr>buf = map (\<lambda>f. projr (um f)) (take 100 fs), cap = 100\<rparr>\<rparr>)))"
proof -
  have a: "cap (messages (NewWSClient cfg)) = 100"
    by (simp add: NewWSClient_def make_chan_def)
  have b: "length (buf (messages (client (run um (start e now1 now2 cfg) acts)))) \<le> 100"
    using run_queue_bound[of "start e now1 now2 cfg" um acts]
    by (simp add: start_messages make_chan_def)
  have c: "length (buf ch) \<le> cap ch \<longrightarrow> length (buf (snd (select_send ch v))) \<le> cap ch"
    by (simp add: select_send_bound)
  have d: "privateConn c = Some conn \<and> Conn_ReadMessage conn = RdFrame message conn' \<longrightarrow>
        (\<exists>ls c'. readPrivate_step um InReadMessage c = Some (ls, AtSelect, c'))"
    by (auto simp: select_send_def Let_def split: sum.splits)
  have e: "marketsConn c = Some conn \<and> Conn_ReadMessage conn = RdFrame message conn' \<longrightarrow>
        (\<exists>ls c'. readMarkets_step um InReadMessage c = Some (ls, AtSelect, c'))"
    by (auto simp: select_send_def Let_def split: sum.splits)
  have f: "readPrivate um AtSelect c =
             ([LogChannelFull], InReadMessage,
              c\<lparr>privateConn := Some (conn\<lparr>inbox := []\<rparr>),
                messages := \<lparr>buf = map (\<lambda>f. projr (um f)) (take 100 fs), cap = 100\<rparr>\<rparr>)"
    if "length fs = 101" "\<forall>f\<in>set fs. \<exists>m. um f = Inr m \<and> Heartbeat m = None"
       "\<not> conn_closed conn" "inbox conn = map Data fs" "done_chan c = Open"
       "messages c = make_chan 100" "privateConn c = Some conn"
    using readPrivate_frames[OF that(7) that(3) that(4) that(5) that(2)] that(1) that(6)
    by (simp add: make_chan_def take_map)
  have g: "readMarkets um AtSelect c =
             ([LogChannelFull], InReadMessage,
              c\<lparr>marketsConn := Some (conn\<lparr>inbox := []\<rparr>),
                messages := \<lparr>buf = map (\<lambda>f. projr (um f)) (take 100 fs), cap = 100\<rparr>\<rparr>)"
    if "length fs = 101" "\<forall>f\<in>set fs. \<exists>m. um f = Inr m \<and> Heartbeat m = None"
       "\<not> conn_closed conn" "inbox conn = map Data fs" "done_chan c = Open"
       "messages c = make_chan 100" "marketsConn c = Some conn"
    using readMarkets_frames[OF that(7) that(3) that(4) that(5) that(2)] that(1) that(6)
    by (simp add: make_chan_def take_map)
  from a b c d e f g show ?thesis by blast
qed

theorem inbound_queue_bounded_witness:
  "length (map numbered_frame [1..<102]) = 101
   \<and> privateConn flooded_client =
        Some (fresh_conn\<lparr>inbox := map Data (map numbered_frame [1..<102])\<rparr>)
   \<and> readPrivate sample_unmarshal AtSelect flooded_client =
       ([LogChannelFull], InReadMessage,
        flooded_client\<lparr>privateConn := Some fresh_conn,
          messages := \<lparr>buf = map (\<lambda>n. blank_message\<lparr>WSMessage.RequestID := numbered_frame n\<rparr>) [1..<101],
                       cap = 100\<rparr>\<rparr>)"
proof -
  let ?fs = "map numbered_frame [1..<102]"
  let ?conn = "fresh_conn\<lparr>inbox := map Data ?fs\<rparr>"
  have hyp: "length ?fs = 101
        \<and> (\<forall>f\<in>set ?fs. \<exists>m. sample_unmarshal f = Inr m \<and> Heartbeat m = None)
        \<and> \<not> conn_closed ?conn \<and> inbox ?conn = map Data ?fs
        \<and> done_chan flooded_client = Open \<and> messages flooded_client = make_chan 100"
    by (auto simp: flooded_client_def start_def Connect_def NewWSClient_def sample_env_def
          fresh_conn_def Let_def numbered_frames_decode blank_message_def)
  have pc: "privateConn flooded_client = Some ?conn"
    by (simp add: flooded_client_def)
  have dec: "map (\<lambda>f. projr (sample_unmarshal f)) (take 100 ?fs) =
       map (\<lambda>n. blank_message\<lparr>WSMessage.RequestID := numbered_frame n\<rparr>) [1..<101]"
    by (simp add: take_map numbered_frames_decode)
  from inbound_queue_bounded[where um = sample_unmarshal and c = flooded_client
      and fs = ?fs and conn = ?conn, THEN conjunct2, THEN conjunct2, THEN conjunct2,
      THEN conjunct2, THEN conjunct2, THEN mp, OF hyp, THEN conjunct1, THEN mp, OF pc]
  show ?thesis
    using pc dec by (simp add: fresh_conn_def)
qed

subsection \<open>Heartbeats\<close>

lemma perform_received:
  "received (perform um s a) = received s
   \<or> (\<exists>m rest. buf (messages (client s)) = m # rest
         \<and> received (perform um s a) = received s @ [m])"
proof (cases a)
  case (Step i)
  then show ?thesis by (auto split: option.splits)
next
  case (Arrive sock ev)
  then show ?thesis by (cases sock) simp_all
next
  case Receive
  then show ?thesis by (auto simp: chan_recv_def Messages_def split: list.splits)
next
  case CallClose
  then show ?thesis by (auto split: outcome.splits)
qed (simp_all add: subscribed_def)

lemma run_no_heartbeat_received:
  "\<forall>m\<in>set (buf (messages (client s))) \<union> set (received s). Heartbeat m = None \<Longrightarrow>
   \<forall>m\<in>set (buf (messages (client (run um s acts)))) \<union> set (received (run um s acts)).
      Heartbeat m = None"
proof (induction acts arbitrary: s)
  case Nil
  then show ?case by simp
next
  case (Cons a acts)
  from perform_messages[of um s a] perform_received[of um s a] Cons.prems
  have "\<forall>m\<in>set (buf (messages (client (perform um s a)))) \<union> set (received (perform um s a)).
          Heartbeat m = None"
    by auto
  with Cons.IH[of "perform um s a"] Cons.prems show ?case by simp
qed

lemma start_received: "received (start e n1 n2 cfg) = []"
  by (simp add: start_def split: prod.splits)

lemma filter_heartbeat_step:
  assumes "messages c' = messages c
           \<or> (\<exists>m. Heartbeat m = None \<and> length (buf (messages c)) < cap (messages c)
                 \<and> messages c' = (messages c)\<lparr>buf := buf (messages c) @ [m]\<rparr>)"
  shows "filter (\<lambda>m. Heartbeat m \<noteq> None) (buf (messages c')) =
         filter (\<lambda>m. Heartbeat m \<noteq> None) (buf (messages c))"
  using assms by auto

lemma heartbeat_schedule_run:
  "run sample_unmarshal (start sample_env 0 0 sample_config) heartbeat_schedule =
     \<lparr>client = (client (start sample_env 0 0 sample_config))
         \<lparr>messages := \<lparr>buf = [blank_message\<lparr>WSMessage.RequestID := numbered_frame 2\<rparr>], cap = 100\<rparr>\<rparr>,
      tasks = [(Private, AtSelect), (Markets, AtSelect)],
      logged = [LogPrivateHeartbeat, LogMarketsHeartbeat],
      returned = [],
      received = [blank_message\<lparr>WSMessage.RequestID := numbered_frame 1\<rparr>],
      crashed = False\<rparr>"
  by (simp add: heartbeat_schedule_def sample_defs model_defs digit_char_def)

text \<open>
  C2. Whatever frames arrive on the two sockets, however they decode, and however the
  readers, the consumer and the calls of the client are interleaved, the inbound queue
  holds no message whose heartbeat variant is populated, and the consumer has received
  none. No step of either reader changes the heartbeat messages a queue holds: a reader
  never pushes one.
\<close>

theorem heartbeats_never_queued:
  "filter (\<lambda>m. Heartbeat m \<noteq> None)
      (buf (messages (client (run um (start e now1 now2 cfg) acts)))) = []
   \<and> filter (\<lambda>m. Heartbeat m \<noteq> None) (received (run um (start e now1 now2 cfg) acts)) = []
   \<and> (readPrivate_step um p c = Some (ls, p', c') \<longrightarrow>
        filter (\<lambda>m. Heartbeat m \<noteq> None) (buf (messages c')) =
        filter (\<lambda>m. Heartbeat m \<noteq> None) (buf (messages c)))
   \<and> (readMarkets_step um p c = Some (ls, p', c') \<longrightarrow>
        filter (\<lambda>m. Heartbeat m \<noteq> None) (buf (messages c')) =
        filter (\<lambda>m. Heartbeat m \<noteq> None) (buf (messages c)))"
proof -
  have "\<forall>m\<in>set (buf (messages (client (start e now1 now2 cfg)))) \<union> set (received (start e now1 now2 cfg)).
          Heartbeat m = None"
    by (simp add: start_messages start_received make_chan_def)
  from run_no_heartbeat_received[OF this, of um acts]
  have inv: "\<forall>m\<in>set (buf (messages (client (run um (start e now1 now2 cfg) acts))))
               \<union> set (received (run um (start e now1 now2 cfg) acts)). Heartbeat m = None" .
  have a: "filter (\<lambda>m. Heartbeat m \<noteq> None)
      (buf (messages (client (run um (start e now1 now2 cfg) acts)))) = []"
    using inv by (auto simp: filter_empty_conv)
  have b: "filter (\<lambda>m. Heartbeat m \<noteq> None) (received (run um (start e now1 now2 cfg) acts)) = []"
    using inv by (auto simp: filter_empty_conv)
  have c: "readPrivate_step um p c = Some (ls, p', c') \<longrightarrow>
        filter (\<lambda>m. Heartbeat m \<noteq> None) (buf (messages c')) =
        filter (\<lambda>m. Heartbeat m \<noteq> None) (buf (messages c))"
    using readPrivate_step_effect[of um p c ls p' c'] filter_heartbeat_step[of c' c] by blast
  have d: "readMarkets_step um p c = Some (ls, p', c') \<longrightarrow>
        filter (\<lambda>m. Heartbeat m \<noteq> None) (buf (messages c')) =
        filter (\<lambda>m. Heartbeat m \<noteq> None) (buf (messages c))"
    using readMarkets_step_effect[of um p c ls p' c'] filter_heartbeat_step[of c' c] by blast
  from a b c d show ?thesis by blast
qed

theorem heartbeats_never_queued_witness:
  "logged (run sample_unmarshal (start sample_env 0 0 sample_config) heartbeat_schedule) =
     [LogPrivateHeartbeat, LogMarketsHeartbeat]
   \<and> buf (messages (client (run sample_unmarshal (start sample_env 0 0 sample_config)
        heartbeat_schedule))) = [blank_message\<lparr>WSMessage.RequestID := numbered_frame 2\<rparr>]
   \<and> received (run sample_unmarshal (start sample_env 0 0 sample_config) heartbeat_schedule) =
        [blank_message\<lparr>WSMessage.RequestID := numbered_frame 1\<rparr>]
   \<and> filter (\<lambda>m. Heartbeat m \<noteq> None)
        (buf (messages (client (run sample_unmarshal (start sample_env 0 0 sample_config)
           heartbeat_schedule)))) = []
   \<and> readPrivate_step sample_unmarshal InReadMessage
        ((client (start sample_env 0 0 sample_config))
           \<lparr>privateConn := Some (fresh_conn\<lparr>inbox := [Data heartbeat_frame]\<rparr>)\<rparr>) =
        Some ([LogPrivateHeartbeat], AtSelect, client (start sample_env 0 0 sample_config))"
  using heartbeats_never_queued[of sample_unmarshal sample_env 0 0 sample_config
      heartbeat_schedule InReadMessage
      "(client (start sample_env 0 0 sample_config))
           \<lparr>privateConn := Some (fresh_conn\<lparr>inbox := [Data heartbeat_frame]\<rparr>)\<rparr>"
      "[LogPrivateHeartbeat]" AtSelect "client (start sample_env 0 0 sample_config)"]
  by (simp add: heartbeat_schedule_run) (simp add: sample_defs model_defs)

subsection \<open>Routing of subscriptions\<close>

lemma sendPrivate_written:
  "marketsConn (snd (sendPrivate m c)) = marketsConn c
   \<and> (fst (sendPrivate m c) = None \<longrightarrow>
        (\<exists>data. json_Marshal m = Inr data
           \<and> written (privateConn (snd (sendPrivate m c))) = written (privateConn c) @ [data]))
   \<and> (fst (sendPrivate m c) \<noteq> None \<longrightarrow> snd (sendPrivate m c) = c)"
  by (auto simp: sendPrivate_def Conn_WriteMessage_def written_def
           split: option.splits sum.splits prod.splits)

lemma sendMarkets_written:
  "privateConn (snd (sendMarkets m c)) = privateConn c
   \<and> (fst (sendMarkets m c) = None \<longrightarrow>
        (\<exists>data. json_Marshal m = Inr data
           \<and> written (marketsConn (snd (sendMarkets m c))) = written (marketsConn c) @ [data]))
   \<and> (fst (sendMarkets m c) \<noteq> None \<longrightarrow> snd (sendMarkets m c) = c)"
  by (auto simp: sendMarkets_def Conn_WriteMessage_def written_def
           split: option.splits sum.splits prod.splits)

lemma private_route:
  assumes "call = (case sendPrivate (SubscribeRequest \<lparr>Subscribe = Some
              \<lparr>WSSubscription.RequestID = rid, SubscriptionType = ty, MarketSlugs = sl,
               ResponsesDebounced = d\<rparr>\<rparr>) (c\<lparr>requestID := r\<rparr>) of
             (Some err, c2) \<Rightarrow> (Inl err, c2) | (None, c2) \<Rightarrow> (Inr rid, c2))"
  shows "marketsConn (snd call) = marketsConn c
     \<and> (\<forall>x. fst call = Inr x \<longrightarrow>
           written (privateConn (snd call)) = written (privateConn c) @ [subscribe_frame x ty sl d])
     \<and> (\<forall>err. fst call = Inl err \<longrightarrow> written (privateConn (snd call)) = written (privateConn c))"
  using sendPrivate_written[of "SubscribeRequest \<lparr>Subscribe = Some
              \<lparr>WSSubscription.RequestID = rid, SubscriptionType = ty, MarketSlugs = sl,
               ResponsesDebounced = d\<rparr>\<rparr>" "c\<lparr>requestID := r\<rparr>"]
  unfolding assms
  by (cases "sendPrivate (SubscribeRequest \<lparr>Subscribe = Some
              \<lparr>WSSubscription.RequestID = rid, SubscriptionType = ty, MarketSlugs = sl,
               ResponsesDebounced = d\<rparr>\<rparr>) (c\<lparr>requestID := r\<rparr>)")
     (auto simp: subscribe_frame_def split: option.splits)

lemma markets_route:
  assumes "call = (case sendMarkets (SubscribeRequest \<lparr>Subscribe = Some
              \<lparr>WSSubscription.RequestID = rid, SubscriptionType = ty, MarketSlugs = sl,
               ResponsesDebounced = d\<rparr>\<rparr>) (c\<lparr>requestID := r\<rparr>) of
             (Some err, c2) \<Rightarrow> (Inl err, c2) | (None, c2) \<Rightarrow> (Inr rid, c2))"
  shows "privateConn (snd call) = privateConn c
     \<and> (\<forall>x. fst call = Inr x \<longrightarrow>
           written (marketsConn (snd call)) = written (marketsConn c) @ [subscribe_frame x ty sl d])
     \<and> (\<forall>err. fst call = Inl err \<longrightarrow> written (marketsConn (snd call)) = written (marketsConn c))"
  using sendMarkets_written[of "SubscribeRequest \<lparr>Subscribe = Some
              \<lparr>WSSubscription.RequestID = rid, SubscriptionType = ty, MarketSlugs = sl,
               ResponsesDebounced = d\<rparr>\<rparr>" "c\<lparr>requestID := r\<rparr>"]
  unfolding assms
  by (cases "sendMarkets (SubscribeRequest \<lparr>Subscribe = Some
              \<lparr>WSSubscription.RequestID = rid, SubscriptionType = ty, MarketSlugs = sl,
               ResponsesDebounced = d\<rparr>\<rparr>) (c\<lparr>requestID := r\<rparr>)")
     (auto simp: subscribe_frame_def split: option.splits)

lemma started_client:
  "client (start sample_env 0 0 sample_config) =
     \<lparr>config = sample_config, privateConn = Some fresh_conn, marketsConn = Some fresh_conn,
      privateURL = WSPrivateURL sample_config, marketsURL = WSMarketsURL sample_config,
      done_chan = Open, messages = make_chan 100, requestID = 0, connected = True,
      reconnecting = False\<rparr>"
  by (simp add: start_def Connect_def NewWSClient_def sample_env_def Let_def)

lemma subscribe_touches_own_socket_only:
  "(marketsConn (snd (SubscribeOrders slugs c)) = marketsConn c
     \<and> (\<forall>rid. fst (SubscribeOrders slugs c) = Inr rid \<longrightarrow>
           written (privateConn (snd (SubscribeOrders slugs c))) =
           written (privateConn c) @ [subscribe_frame rid SubscriptionTypeOrder slugs False])
     \<and> (\<forall>err. fst (SubscribeOrders slugs c) = Inl err \<longrightarrow>
           written (privateConn (snd (SubscribeOrders slugs c))) = written (privateConn c)))
   \<and> (marketsConn (snd (SubscribePositions slugs c)) = marketsConn c
     \<and> (\<forall>rid. fst (SubscribePositions slugs c) = Inr rid \<longrightarrow>
           written (privateConn (snd (SubscribePositions slugs c))) =
           written (privateConn c) @ [subscribe_frame rid SubscriptionTypePosition slugs False])
     \<and> (\<forall>err. fst (SubscribePositions slugs c) = Inl err \<longrightarrow>
           written (privateConn (snd (SubscribePositions slugs c))) = written (privateConn c)))
   \<and> (marketsConn (snd (SubscribeBalances c)) = marketsConn c
     \<and> (\<forall>rid. fst (SubscribeBalances c) = Inr rid \<longrightarrow>
           written (privateConn (snd (SubscribeBalances c))) =
           written (privateConn c) @ [subscribe_frame rid SubscriptionTypeAccountBalance [] False])
     \<and> (\<forall>err. fst (SubscribeBalances c) = Inl err \<longrightarrow>
           written (privateConn (snd (SubscribeBalances c))) = written (privateConn c)))
   \<and> (privateConn (snd (SubscribeMarketData slugs debounced c)) = privateConn c
     \<and> (\<forall>rid. fst (SubscribeMarketData slugs debounced c) = Inr rid \<longrightarrow>
           written (marketsConn (snd (SubscribeMarketData slugs debounced c))) =
           written (marketsConn c) @ [subscribe_frame rid SubscriptionTypeMarketData slugs debounced])
     \<and> (\<forall>err. fst (SubscribeMarketData slugs debounced c) = Inl err \<longrightarrow>
           written (marketsConn (snd (SubscribeMarketData slugs debounced c))) =
           written (marketsConn c)))
   \<and> (privateConn (snd (SubscribeMarketDataLite slugs c)) = privateConn c
     \<and> (\<forall>rid. fst (SubscribeMarketDataLite slugs c) = Inr rid \<longrightarrow>
           written (marketsConn (snd (SubscribeMarketDataLite slugs c))) =
           written (marketsConn c) @ [subscribe_frame rid SubscriptionTypeMarketDataLite slugs False])
     \<and> (\<forall>err. fst (SubscribeMarketDataLite slugs c) = Inl err \<longrightarrow>
           written (marketsConn (snd (SubscribeMarketDataLite slugs c))) = written (marketsConn c)))
   \<and> (privateConn (snd (SubscribeTrades slugs c)) = privateConn c
     \<and> (\<forall>rid. fst (SubscribeTrades slugs c) = Inr rid \<longrightarrow>
           written (marketsConn (snd (SubscribeTrades slugs c))) =
           written (marketsConn c) @ [subscribe_frame rid SubscriptionTypeTrade slugs False])
     \<and> (\<forall>err. fst (SubscribeTrades slugs c) = Inl err \<longrightarrow>
           written (marketsConn (snd (SubscribeTrades slugs c))) = written (marketsConn c)))"
  by (intro conjI private_route markets_route)
     (simp_all add: subscribe_defs nextRequestID_def Let_def)

lemma subscribe_sends:
  "(\<forall>conn. privateConn c = Some conn \<and> \<not> conn_closed conn \<and> write_result conn = None \<longrightarrow>
       fst (SubscribeOrders slugs c) = Inr (''order-'' @ FormatInt (requestID c + 1))
       \<and> written (privateConn (snd (SubscribeOrders slugs c))) =
           outbox conn @ [subscribe_frame (''order-'' @ FormatInt (requestID c + 1))
                            SubscriptionTypeOrder slugs False]
       \<and> fst (SubscribePositions slugs c) = Inr (''position-'' @ FormatInt (requestID c + 1))
       \<and> written (privateConn (snd (SubscribePositions slugs c))) =
           outbox conn @ [subscribe_frame (''position-'' @ FormatInt (requestID c + 1))
                            SubscriptionTypePosition slugs False]
       \<and> fst (SubscribeBalances c) = Inr (''balance-'' @ FormatInt (requestID c + 1))
       \<and> written (privateConn (snd (SubscribeBalances c))) =
           outbox conn @ [subscribe_frame (''balance-'' @ FormatInt (requestID c + 1))
                            SubscriptionTypeAccountBalance [] False])
   \<and> (\<forall>conn. marketsConn c = Some conn \<and> \<not> conn_closed conn \<and> write_result conn = None \<longrightarrow>
       fst (SubscribeMarketData slugs debounced c) =
         Inr (''marketdata-'' @ FormatInt (requestID c + 1))
       \<and> written (marketsConn (snd (SubscribeMarketData slugs debounced c))) =
           outbox conn @ [subscribe_frame (''marketdata-'' @ FormatInt (requestID c + 1))
                            SubscriptionTypeMarketData slugs debounced]
       \<and> fst (SubscribeMarketDataLite slugs c) =
         Inr (''marketdatalite-'' @ FormatInt (requestID c + 1))
       \<and> written (marketsConn (snd (SubscribeMarketDataLite slugs c))) =
           outbox conn @ [subscribe_frame (''marketdatalite-'' @ FormatInt (requestID c + 1))
                            SubscriptionTypeMarketDataLite slugs False]
       \<and> fst (SubscribeTrades slugs c) = Inr (''trade-'' @ FormatInt (requestID c + 1))
       \<and> written (marketsConn (snd (SubscribeTrades slugs c))) =
           outbox conn @ [subscribe_frame (''trade-'' @ FormatInt (requestID c + 1))
                            SubscriptionTypeTrade slugs False])
   \<and> (privateConn c = None \<longrightarrow>
       fst (SubscribeOrders slugs c) = Inl PrivateNotConnected
       \<and> fst (SubscribePositions slugs c) = Inl PrivateNotConnected
       \<and> fst (SubscribeBalances c) = Inl PrivateNotConnected)
   \<and> (marketsConn c = None \<longrightarrow>
       fst (SubscribeMarketData slugs debounced c) = Inl MarketsNotConnected
       \<and> fst (SubscribeMarketDataLite slugs c) = Inl MarketsNotConnected
       \<and> fst (SubscribeTrades slugs c) = Inl MarketsNotConnected)"
  by (simp add: subscribe_defs nextRequestID_def sendPrivate_def sendMarkets_def
        Conn_WriteMessage_def written_def subscribe_frame_def Let_def)

text \<open>
  C3. Each subscribe call writes on the socket of its kind and on no other.
  \<^verbatim>\<open>SubscribeOrders\<close>, \<^verbatim>\<open>SubscribePositions\<close> and \<^verbatim>\<open>SubscribeBalances\<close> leave the markets
  connection as it was; when they succeed they have written exactly their subscription
  frame on the private connection, and when they fail they have written nothing.
  \<^verbatim>\<open>SubscribeMarketData\<close>, \<^verbatim>\<open>SubscribeMarketDataLite\<close> and \<^verbatim>\<open>SubscribeTrades\<close> leave the
  private connection as it was and write on the markets connection in the same way.
  And the calls do send: when the socket of its kind is there, open and writable, each of
  the six calls succeeds, returns the request id it allocated and has appended its
  subscription frame to what was written on that socket; when that socket is absent the
  call fails with the not-connected error of that socket.
\<close>

theorem subscribe_routes_by_kind:
  "((marketsConn (snd (SubscribeOrders slugs c)) = marketsConn c
     \<and> (\<forall>rid. fst (SubscribeOrders slugs c) = Inr rid \<longrightarrow>
           written (privateConn (snd (SubscribeOrders slugs c))) =
           written (privateConn c) @ [subscribe_frame rid SubscriptionTypeOrder slugs False])
     \<and> (\<forall>err. fst (SubscribeOrders slugs c) = Inl err \<longrightarrow>
           written (privateConn (snd (SubscribeOrders slugs c))) = written (privateConn c)))
   \<and> (marketsConn (snd (SubscribePositions slugs c)) = marketsConn c
     \<and> (\<forall>rid. fst (SubscribePositions slugs c) = Inr rid \<longrightarrow>
           written (privateConn (snd (SubscribePositions slugs c))) =
           written (privateConn c) @ [subscribe_frame rid SubscriptionTypePosition slugs False])
     \<and> (\<forall>err. fst (SubscribePositions slugs c) = Inl err \<longrightarrow>
           written (privateConn (snd (SubscribePositions slugs c))) = written (privateConn c)))
   \<and> (marketsConn (snd (SubscribeBalances c)) = marketsConn c
     \<and> (\<forall>rid. fst (SubscribeBalances c) = Inr rid \<longrightarrow>
           written (privateConn (snd (SubscribeBalances c))) =
           written (privateConn c) @ [subscribe_frame rid SubscriptionTypeAccountBalance [] False])
     \<and> (\<forall>err. fst (SubscribeBalances c) = Inl err \<longrightarrow>
           written (privateConn (snd (SubscribeBalances c))) = written (privateConn c)))
   \<and> (privateConn (snd (SubscribeMarketData slugs debounced c)) = privateConn c
     \<and> (\<forall>rid. fst (SubscribeMarketData slugs debounced c) = Inr rid \<longrightarrow>
           written (marketsConn (snd (SubscribeMarketData slugs debounced c))) =
           written (marketsConn c) @ [subscribe_frame rid SubscriptionTypeMarketData slugs debounced])
     \<and> (\<forall>err. fst (SubscribeMarketData slugs debounced c) = Inl err \<longrightarrow>
           written (marketsConn (snd (SubscribeMarketData slugs debounced c))) =
           written (marketsConn c)))
   \<and> (privateConn (snd (SubscribeMarketDataLite slugs c)) = privateConn c
     \<and> (\<forall>rid. fst (SubscribeMarketDataLite slugs c) = Inr rid \<longrightarrow>
           written (marketsConn (snd (SubscribeMarketDataLite slugs c))) =
           written (marketsConn c) @ [subscribe_frame rid SubscriptionTypeMarketDataLite slugs False])
     \<and> (\<forall>err. fst (SubscribeMarketDataLite slugs c) = Inl err \<longrightarrow>
           written (marketsConn (snd (SubscribeMarketDataLite slugs c))) = written (marketsConn c)))
   \<and> (privateConn (snd (SubscribeTrades slugs c)) = privateConn c
     \<and> (\<forall>rid. fst (SubscribeTrades slugs c) = Inr rid \<longrightarrow>
           written (marketsConn (snd (SubscribeTrades slugs c))) =
           written (marketsConn c) @ [subscribe_frame rid SubscriptionTypeTrade slugs False])
     \<and> (\<forall>err. fst (SubscribeTrades slugs c) = Inl err \<longrightarrow>
           written (marketsConn (snd (SubscribeTrades slugs c))) = written (marketsConn c))))
   \<and> ((\<forall>conn. privateConn c = Some conn \<and> \<not> conn_closed conn \<and> write_result conn = None \<longrightarrow>
       fst (SubscribeOrders slugs c) = Inr (''order-'' @ FormatInt (requestID c + 1))
       \<and> written (privateConn (snd (SubscribeOrders slugs c))) =
           outbox conn @ [subscribe_frame (''order-'' @ FormatInt (requestID c + 1))
                            SubscriptionTypeOrder slugs False]
       \<and> fst (SubscribePositions slugs c) = Inr (''position-'' @ FormatInt (requestID c + 1))
       \<and> written (privateConn (snd (SubscribePositions slugs c))) =
           outbox conn @ [subscribe_frame (''position-'' @ FormatInt (requestID c + 1))
                            SubscriptionTypePosition slugs False]
       \<and> fst (SubscribeBalances c) = Inr (''balance-'' @ FormatInt (requestID c + 1))
       \<and> written (privateConn (snd (SubscribeBalances c))) =
           outbox conn @ [subscribe_frame (''balance-'' @ FormatInt (requestID c + 1))
                            SubscriptionTypeAccountBalance [] False])
   \<and> (\<forall>conn. marketsConn c = Some conn \<and> \<not> conn_closed conn \<and> write_result conn = None \<longrightarrow>
       fst (SubscribeMarketData slugs debounced c) =
         Inr (''marketdata-'' @ FormatInt (requestID c + 1))
       \<and> written (marketsConn (snd (SubscribeMarketData slugs debounced c))) =
           outbox conn @ [subscribe_frame (''marketdata-'' @ FormatInt (requestID c + 1))
                            SubscriptionTypeMarketData slugs debounced]
       \<and> fst (SubscribeMarketDataLite slugs c) =
         Inr (''marketdatalite-'' @ FormatInt (requestID c + 1))
       \<and> written (marketsConn (snd (SubscribeMarketDataLite slugs c))) =
           outbox conn @ [subscribe_frame (''marketdatalite-'' @ FormatInt (requestID c + 1))
                            SubscriptionTypeMarketDataLite slugs False]
       \<and> fst (SubscribeTrades slugs c) = Inr (''trade-'' @ FormatInt (requestID c + 1))
       \<and> written (marketsConn (snd (SubscribeTrades slugs c))) =
           outbox conn @ [subscribe_frame (''trade-'' @ FormatInt (requestID c + 1))
                            SubscriptionTypeTrade slugs False])
   \<and> (privateConn c = None \<longrightarrow>
       fst (SubscribeOrders slugs c) = Inl PrivateNotConnected
       \<and> fst (SubscribePositions slugs c) = Inl PrivateNotConnected
       \<and> fst (SubscribeBalances c) = Inl PrivateNotConnected)
   \<and> (marketsConn c = None \<longrightarrow>
       fst (SubscribeMarketData slugs debounced c) = Inl MarketsNotConnected
       \<and> fst (SubscribeMarketDataLite slugs c) = Inl MarketsNotConnected
       \<and> fst (SubscribeTrades slugs c) = Inl MarketsNotConnected))"
  by (rule conjI[OF subscribe_touches_own_socket_only subscribe_sends])

theorem subscribe_routes_by_kind_witness:
  "privateConn (client (start sample_env 0 0 sample_config)) = Some fresh_conn
   \<and> marketsConn (client (start sample_env 0 0 sample_config)) = Some fresh_conn
   \<and> \<not> conn_closed fresh_conn \<and> write_result fresh_conn = None
   \<and> SubscribeOrders [''m1''] (client (start sample_env 0 0 sample_config)) =
       (Inr ''order-1'',
        (client (start sample_env 0 0 sample_config))
          \<lparr>privateConn := Some (fresh_conn
             \<lparr>outbox := [subscribe_frame ''order-1'' SubscriptionTypeOrder [''m1''] False]\<rparr>),
           requestID := 1\<rparr>)
   \<and> SubscribePositions [''m1''] (client (start sample_env 0 0 sample_config)) =
       (Inr ''position-1'',
        (client (start sample_env 0 0 sample_config))
          \<lparr>privateConn := Some (fresh_conn
             \<lparr>outbox := [subscribe_frame ''position-1'' SubscriptionTypePosition [''m1''] False]\<rparr>),
           requestID := 1\<rparr>)
   \<and> SubscribeBalances (client (start sample_env 0 0 sample_config)) =
       (Inr ''balance-1'',
        (client (start sample_env 0 0 sample_config))
          \<lparr>privateConn := Some (fresh_conn
             \<lparr>outbox := [subscribe_frame ''balance-1'' SubscriptionTypeAccountBalance [] False]\<rparr>),
           requestID := 1\<rparr>)
   \<and> SubscribeMarketData [''m1''] True (client (start sample_env 0 0 sample_config)) =
       (Inr ''marketdata-1'',
        (client (start sample_env 0 0 sample_config))
          \<lparr>marketsConn := Some (fresh_conn
             \<lparr>outbox := [subscribe_frame ''marketdata-1'' SubscriptionTypeMarketData [''m1''] True]\<rparr>),
           requestID := 1\<rparr>)
   \<and> SubscribeMarketDataLite [''m1''] (client (start sample_env 0 0 sample_config)) =
       (Inr ''marketdatalite-1'',
        (client (start sample_env 0 0 sample_config))
          \<lparr>marketsConn := Some (fresh_conn
             \<lparr>outbox := [subscribe_frame ''marketdatalite-1'' SubscriptionTypeMarketDataLite
                           [''m1''] False]\<rparr>),
           requestID := 1\<rparr>)
   \<and> SubscribeTrades [''m1''] (client (start sample_env 0 0 sample_config)) =
       (Inr ''trade-1'',
        (client (start sample_env 0 0 sample_config))
          \<lparr>marketsConn := Some (fresh_conn
             \<lparr>outbox := [subscribe_frame ''trade-1'' SubscriptionTypeTrade [''m1''] False]\<rparr>),
           requestID := 1\<rparr>)
   \<and> written (marketsConn (snd (SubscribeOrders [''m1'']
        (client (start sample_env 0 0 sample_config))))) = []
   \<and> written (privateConn (snd (SubscribeTrades [''m1'']
        (client (start sample_env 0 0 sample_config))))) = []"
proof -
  let ?c = "client (start sample_env 0 0 sample_config)"
  have p: "privateConn ?c = Some fresh_conn" and m: "marketsConn ?c = Some fresh_conn"
    by (simp_all add: started_client)
  have ok: "\<not> conn_closed fresh_conn \<and> write_result fresh_conn = None"
    by (simp add: fresh_conn_def)
  have ev: "SubscribeOrders [''m1''] ?c =
       (Inr ''order-1'',
        ?c\<lparr>privateConn := Some (fresh_conn
             \<lparr>outbox := [subscribe_frame ''order-1'' SubscriptionTypeOrder [''m1''] False]\<rparr>),
           requestID := 1\<rparr>)"
    "SubscribePositions [''m1''] ?c =
       (Inr ''position-1'',
        ?c\<lparr>privateConn := Some (fresh_conn
             \<lparr>outbox := [subscribe_frame ''position-1'' SubscriptionTypePosition [''m1''] False]\<rparr>),
           requestID := 1\<rparr>)"
    "SubscribeBalances ?c =
       (Inr ''balance-1'',
        ?c\<lparr>privateConn := Some (fresh_conn
             \<lparr>outbox := [subscribe_frame ''balance-1'' SubscriptionTypeAccountBalance [] False]\<rparr>),
           requestID := 1\<rparr>)"
    "SubscribeMarketData [''m1''] True ?c =
       (Inr ''marketdata-1'',
        ?c\<lparr>marketsConn := Some (fresh_conn
             \<lparr>outbox := [subscribe_frame ''marketdata-1'' SubscriptionTypeMarketData [''m1''] True]\<rparr>),
           requestID := 1\<rparr>)"
    "SubscribeMarketDataLite [''m1''] ?c =
       (Inr ''marketdatalite-1'',
        ?c\<lparr>marketsConn := Some (fresh_conn
             \<lparr>outbox := [subscribe_frame ''marketdatalite-1'' SubscriptionTypeMarketDataLite
                           [''m1''] False]\<rparr>),
           requestID := 1\<rparr>)"
    "SubscribeTrades [''m1''] ?c =
       (Inr ''trade-1'',
        ?c\<lparr>marketsConn := Some (fresh_conn
             \<lparr>outbox := [subscribe_frame ''trade-1'' SubscriptionTypeTrade [''m1''] False]\<rparr>),
           requestID := 1\<rparr>)"
    by (simp_all add: started_client subscribe_defs nextRequestID_def sendPrivate_def
          sendMarkets_def Conn_WriteMessage_def fresh_conn_def subscribe_frame_def
          FormatInt_def digit_char_def Let_def)
  note T = subscribe_routes_by_kind[of "[''m1'']" ?c True]
  from T have "marketsConn (snd (SubscribeOrders [''m1''] ?c)) = marketsConn ?c"
    by blast
  then have wo: "written (marketsConn (snd (SubscribeOrders [''m1''] ?c))) = []"
    by (simp add: started_client written_def fresh_conn_def)
  from T have "privateConn (snd (SubscribeTrades [''m1''] ?c)) = privateConn ?c"
    by blast
  then have wt: "written (privateConn (snd (SubscribeTrades [''m1''] ?c))) = []"
    by (simp add: started_client written_def fresh_conn_def)
  from p m ok ev wo wt show ?thesis by simp
qed

subsection \<open>Connecting\<close>

lemma perform_connected:
  "connected (client (perform um s a)) \<longrightarrow> connected (client s)"
proof (cases a)
  case (Step i)
  show ?thesis
  proof (cases "i < length (tasks s) \<and> task_step um (tasks s ! i) (client s) \<noteq> None")
    case True
    then obtain ls p' c' where st: "task_step um (tasks s ! i) (client s) = Some (ls, p', c')"
      by auto
    from task_step_effect[OF st] st True Step show ?thesis by simp
  next
    case False
    with Step show ?thesis by (auto split: option.splits)
  qed
next
  case (Arrive sock ev)
  then show ?thesis by (cases sock) simp_all
next
  case Receive
  then show ?thesis by (auto simp: chan_recv_def Messages_def split: list.splits)
next
  case (CallSubscribeOrders sl)
  with subscribe_same(1)[of "client s" sl] show ?thesis by (simp add: same_but_conns_def)
next
  case (CallSubscribePositions sl)
  with subscribe_same(2)[of "client s" sl] show ?thesis by (simp add: same_but_conns_def)
next
  case CallSubscribeBalances
  with subscribe_same(3)[of "client s"] show ?thesis by (simp add: same_but_conns_def)
next
  case (CallSubscribeMarketData sl d)
  with subscribe_same(4)[of "client s" sl d] show ?thesis by (simp add: same_but_conns_def)
next
  case (CallSubscribeMarketDataLite sl)
  with subscribe_same(5)[of "client s" sl] show ?thesis by (simp add: same_but_conns_def)
next
  case (CallSubscribeTrades sl)
  with subscribe_same(6)[of "client s" sl] show ?thesis by (simp add: same_but_conns_def)
next
  case (CallUnsubscribe rid p)
  with Unsubscribe_same[of "client s" rid p] show ?thesis by (simp add: same_but_conns_def)
next
  case CallClose
  show ?thesis
  proof (cases "Close (client s)")
    case (Panic x)
    with CallClose show ?thesis by simp
  next
    case (Return rc)
    obtain r c' ops where "rc = (r, c', ops)" by (cases rc) auto
    with Return CallClose Close_effect[of "client s" r c' ops] show ?thesis by simp
  qed
qed

lemma run_not_connected:
  "\<not> connected (client s) \<Longrightarrow> \<not> connected (client (run um s acts))"
proof (induction acts arbitrary: s)
  case Nil
  then show ?case by simp
next
  case (Cons a acts)
  with perform_connected[of um s a] show ?case by auto
qed

text \<open>
  C4. When \<^verbatim>\<open>Connect\<close> is called on a session that is not connected, the private dial
  succeeds and the markets dial fails, \<^verbatim>\<open>Connect\<close> returns the markets connect error, the
  private connection it had opened has been closed by then, no reader has been started and
  \<^verbatim>\<open>IsConnected\<close> reports false. For a session started this way \<^verbatim>\<open>IsConnected\<close> reports false
  after every schedule.
\<close>

theorem connect_rolls_back_private:
  "(Dial e (privateURL c) (GenerateWSHeaders e now1 (config c)) = Inr pconn
    \<and> Dial e (marketsURL c) (GenerateWSMarketsHeaders e now2 (config c)) = Inl err
    \<and> \<not> connected c \<longrightarrow>
      Connect e now1 now2 c =
        (Some (FailedConnectMarkets err),
         c\<lparr>privateConn := Some (pconn\<lparr>conn_closed := True\<rparr>)\<rparr>, [])
      \<and> map_option conn_closed (privateConn (fst (snd (Connect e now1 now2 c)))) = Some True
      \<and> \<not> IsConnected (fst (snd (Connect e now1 now2 c))))
   \<and> (Dial e (WSPrivateURL cfg) (GenerateWSHeaders e now1 cfg) = Inr pconn
    \<and> Dial e (WSMarketsURL cfg) (GenerateWSMarketsHeaders e now2 cfg) = Inl err \<longrightarrow>
      tasks (start e now1 now2 cfg) = []
      \<and> map_option conn_closed (privateConn (client (start e now1 now2 cfg))) = Some True
      \<and> \<not> IsConnected (client (run um (start e now1 now2 cfg) acts)))"
proof -
  have a: "Connect e now1 now2 c =
        (Some (FailedConnectMarkets err),
         c\<lparr>privateConn := Some (pconn\<lparr>conn_closed := True\<rparr>)\<rparr>, [])
      \<and> map_option conn_closed (privateConn (fst (snd (Connect e now1 now2 c)))) = Some True
      \<and> \<not> IsConnected (fst (snd (Connect e now1 now2 c)))"
    if "Dial e (privateURL c) (GenerateWSHeaders e now1 (config c)) = Inr pconn"
       "Dial e (marketsURL c) (GenerateWSMarketsHeaders e now2 (config c)) = Inl err"
       "\<not> connected c"
    using that by (simp add: Connect_def Conn_Close_def IsConnected_def Let_def)
  have b: "tasks (start e now1 now2 cfg) = []
      \<and> map_option conn_closed (privateConn (client (start e now1 now2 cfg))) = Some True
      \<and> \<not> IsConnected (client (run um (start e now1 now2 cfg) acts))"
    if d: "Dial e (WSPrivateURL cfg) (GenerateWSHeaders e now1 cfg) = Inr pconn"
       "Dial e (WSMarketsURL cfg) (GenerateWSMarketsHeaders e now2 cfg) = Inl err"
  proof -
    have s: "start e now1 now2 cfg =
       \<lparr>client = (NewWSClient cfg)\<lparr>privateConn := Some (pconn\<lparr>conn_closed := True\<rparr>)\<rparr>,
        tasks = [], logged = [], returned = [], received = [], crashed = False\<rparr>"
      using d by (simp add: start_def Connect_def Conn_Close_def NewWSClient_def Let_def)
    have "\<not> connected (client (start e now1 now2 cfg))"
      by (simp add: s NewWSClient_def)
    from run_not_connected[OF this, of um acts] show ?thesis
      by (simp add: IsConnected_def) (simp add: s)
  qed
  from a b show ?thesis by blast
qed

theorem connect_rolls_back_private_witness:
  "Dial markets_down_env (WSPrivateURL sample_config)
       (GenerateWSHeaders markets_down_env 0 sample_config) = Inr fresh_conn
   \<and> Dial markets_down_env (WSMarketsURL sample_config)
       (GenerateWSMarketsHeaders markets_down_env 0 sample_config) =
         Inl (TransportError ''connection refused'')
   \<and> Connect markets_down_env 0 0 (NewWSClient sample_config) =
       (Some (FailedConnectMarkets (TransportError ''connection refused'')),
        (NewWSClient sample_config)\<lparr>privateConn := Some (fresh_conn\<lparr>conn_closed := True\<rparr>)\<rparr>, [])
   \<and> \<not> IsConnected (fst (snd (Connect markets_down_env 0 0 (NewWSClient sample_config))))
   \<and> \<not> IsConnected (client (run sample_unmarshal (start markets_down_env 0 0 sample_config)
          [CallSubscribeBalances, CallClose]))"
proof -
  have d: "Dial markets_down_env (WSPrivateURL sample_config)
       (GenerateWSHeaders markets_down_env 0 sample_config) = Inr fresh_conn"
    "Dial markets_down_env (WSMarketsURL sample_config)
       (GenerateWSMarketsHeaders markets_down_env 0 sample_config) =
         Inl (TransportError ''connection refused'')"
    by (simp_all add: markets_down_env_def sample_config_def)
  have n: "privateURL (NewWSClient sample_config) = WSPrivateURL sample_config"
    "marketsURL (NewWSClient sample_config) = WSMarketsURL sample_config"
    "config (NewWSClient sample_config) = sample_config"
    "\<not> connected (NewWSClient sample_config)"
    by (simp_all add: NewWSClient_def)
  from connect_rolls_back_private[of markets_down_env "NewWSClient sample_config" 0 fresh_conn 0
      "TransportError ''connection refused''" sample_config sample_unmarshal
      "[CallSubscribeBalances, CallClose]"] d n
  show ?thesis by (simp add: IsConnected_def NewWSClient_def)
qed

subsection \<open>Closing a session\<close>

lemma close_fails_client:
  "client (start close_fails_env 0 0 sample_config) =
     \<lparr>config = sample_config,
      privateConn = Some (fresh_conn\<lparr>close_result := Some (TransportError ''broken pipe'')\<rparr>),
      marketsConn = Some fresh_conn,
      privateURL = WSPrivateURL sample_config, marketsURL = WSMarketsURL sample_config,
      done_chan = Open, messages = make_chan 100, requestID = 0, connected = True,
      reconnecting = False\<rparr>"
  by (simp add: start_def Connect_def NewWSClient_def close_fails_env_def sample_config_def Let_def)

text \<open>
  C8. On a session whose cancellation channel is still open, \<^verbatim>\<open>Close\<close> returns. It has
  closed the cancellation channel first, then called close on the private socket and then
  on the markets socket, on each one that is there and whatever the close of the other
  returned. Its result is no error when every close succeeded and otherwise one aggregate
  error that holds the close errors in that order. Afterwards \<^verbatim>\<open>IsConnected\<close> reports false.
\<close>

theorem close_shuts_both_sockets:
  "done_chan c = Open \<longrightarrow>
     Close c =
       Return
         ((if close_error (privateConn c) @ close_error (marketsConn c) = [] then None
           else Some (ErrorsClosing (close_error (privateConn c) @ close_error (marketsConn c)))),
          c\<lparr>done_chan := Closed,
            privateConn := closed_socket (privateConn c),
            marketsConn := closed_socket (marketsConn c),
            connected := False\<rparr>,
          SignalDone # socket_effect Private (privateConn c) @ socket_effect Markets (marketsConn c))
     \<and> \<not> IsConnected (c\<lparr>done_chan := Closed,
            privateConn := closed_socket (privateConn c),
            marketsConn := closed_socket (marketsConn c),
            connected := False\<rparr>)"
  by (cases "privateConn c"; cases "marketsConn c")
     (auto simp: Close_def Conn_Close_def close_error_def closed_socket_def socket_effect_def
           IsConnected_def Let_def split: option.splits)

theorem close_shuts_both_sockets_witness:
  "done_chan (client (start close_fails_env 0 0 sample_config)) = Open
   \<and> IsConnected (client (start close_fails_env 0 0 sample_config))
   \<and> Close (client (start close_fails_env 0 0 sample_config)) =
       Return
         (Some (ErrorsClosing [TransportError ''broken pipe'']),
          (client (start close_fails_env 0 0 sample_config))
            \<lparr>done_chan := Closed,
             privateConn := Some (fresh_conn\<lparr>close_result := Some (TransportError ''broken pipe''),
                                              conn_closed := True\<rparr>),
             marketsConn := Some (fresh_conn\<lparr>conn_closed := True\<rparr>),
             connected := False\<rparr>,
          [SignalDone, CloseSocket Private, CloseSocket Markets])"
proof -
  let ?c = "client (start close_fails_env 0 0 sample_config)"
  have o: "done_chan ?c = Open" "IsConnected ?c"
    by (simp_all add: close_fails_client IsConnected_def)
  have e: "close_error (privateConn ?c) = [TransportError ''broken pipe'']"
    "close_error (marketsConn ?c) = []"
    "closed_socket (privateConn ?c) =
       Some (fresh_conn\<lparr>close_result := Some (TransportError ''broken pipe''), conn_closed := True\<rparr>)"
    "closed_socket (marketsConn ?c) = Some (fresh_conn\<lparr>conn_closed := True\<rparr>)"
    "socket_effect Private (privateConn ?c) = [CloseSocket Private]"
    "socket_effect Markets (marketsConn ?c) = [CloseSocket Markets]"
    by (simp_all add: close_fails_client close_error_def closed_socket_def socket_effect_def
          fresh_conn_def)
  from close_shuts_both_sockets[of ?c, THEN mp, OF o(1), THEN conjunct1] o
  show ?thesis by (simp only: e) simp
qed

subsection \<open>Closing twice\<close>

lemma perform_done_closed:
  assumes d: "done_chan (client s) = Closed"
  shows "done_chan (client (perform um s a)) = Closed"
proof (cases a)
  case (Step i)
  show ?thesis
  proof (cases "i < length (tasks s) \<and> task_step um (tasks s ! i) (client s) \<noteq> None")
    case True
    then obtain ls p' c' where st: "task_step um (tasks s ! i) (client s) = Some (ls, p', c')"
      by auto
    with task_step_effect[OF st] d True Step show ?thesis by simp
  next
    case False
    with d Step show ?thesis by (auto split: option.splits)
  qed
next
  case (Arrive sock ev)
  with d show ?thesis by (cases sock) simp_all
next
  case Receive
  with d show ?thesis by (auto simp: chan_recv_def Messages_def split: list.splits)
next
  case (CallSubscribeOrders sl)
  with d subscribe_same(1)[of "client s" sl] show ?thesis
    by (simp add: same_but_conns_def)
next
  case (CallSubscribePositions sl)
  with d subscribe_same(2)[of "client s" sl] show ?thesis
    by (simp add: same_but_conns_def)
next
  case CallSubscribeBalances
  with d subscribe_same(3)[of "client s"] show ?thesis
    by (simp add: same_but_conns_def)
next
  case (CallSubscribeMarketData sl db)
  with d subscribe_same(4)[of "client s" sl db] show ?thesis
    by (simp add: same_but_conns_def)
next
  case (CallSubscribeMarketDataLite sl)
  with d subscribe_same(5)[of "client s" sl] show ?thesis
    by (simp add: same_but_conns_def)
next
  case (CallSubscribeTrades sl)
  with d subscribe_same(6)[of "client s" sl] show ?thesis
    by (simp add: same_but_conns_def)
next
  case (CallUnsubscribe rid p)
  with d Unsubscribe_same[of "client s" rid p] show ?thesis
    by (simp add: same_but_conns_def)
next
  case CallClose
  with d show ?thesis by (simp add: Close_def)
qed

lemma run_done_closed:
  "done_chan (client s) = Closed \<Longrightarrow> done_chan (client (run um s acts)) = Closed"
proof (induction acts arbitrary: s)
  case Nil
  then show ?case by simp
next
  case (Cons a acts)
  with perform_done_closed[of s um a] show ?case by auto
qed

text \<open>
  C10. Once \<^verbatim>\<open>Close\<close> has returned, calling it again panics with ``close of closed
  channel'': it neither returns an error nor does nothing. This stays so whatever the
  readers, the network, the consumer and the subscribe calls do in between, and the panic
  kills the process.
\<close>

theorem second_close_panics:
  "Close c = Return (r, c', ops) \<and> client s = c' \<longrightarrow>
     Close c' = Panic ''close of closed channel''
     \<and> Close (client (run um s acts)) = Panic ''close of closed channel''
     \<and> crashed (perform um (run um s acts) CallClose)"
proof (intro impI)
  assume h: "Close c = Return (r, c', ops) \<and> client s = c'"
  with Close_effect[of c r c' ops] have d: "done_chan (client s) = Closed" by simp
  from run_done_closed[OF d, of um acts] d h
  show "Close c' = Panic ''close of closed channel''
     \<and> Close (client (run um s acts)) = Panic ''close of closed channel''
     \<and> crashed (perform um (run um s acts) CallClose)"
    by (simp add: Close_def)
qed

theorem second_close_panics_witness:
  "Close (client (start sample_env 0 0 sample_config)) =
     Return (None,
       (client (start sample_env 0 0 sample_config))
         \<lparr>done_chan := Closed, privateConn := Some (fresh_conn\<lparr>conn_closed := True\<rparr>),
          marketsConn := Some (fresh_conn\<lparr>conn_closed := True\<rparr>), connected := False\<rparr>,
       [SignalDone, CloseSocket Private, CloseSocket Markets])
   \<and> Close ((client (start sample_env 0 0 sample_config))
         \<lparr>done_chan := Closed, privateConn := Some (fresh_conn\<lparr>conn_closed := True\<rparr>),
          marketsConn := Some (fresh_conn\<lparr>conn_closed := True\<rparr>), connected := False\<rparr>) =
       Panic ''close of closed channel''
   \<and> crashed (run sample_unmarshal (start sample_env 0 0 sample_config)
        [CallClose, Step 0, CallSubscribeBalances, CallClose])"
proof -
  let ?c = "client (start sample_env 0 0 sample_config)"
  let ?c' = "?c\<lparr>done_chan := Closed, privateConn := Some (fresh_conn\<lparr>conn_closed := True\<rparr>),
          marketsConn := Some (fresh_conn\<lparr>conn_closed := True\<rparr>), connected := False\<rparr>"
  let ?s = "(start sample_env 0 0 sample_config)\<lparr>client := ?c'\<rparr>"
  have c1: "Close ?c = Return (None, ?c', [SignalDone, CloseSocket Private, CloseSocket Markets])"
    by (simp add: started_client Close_def Conn_Close_def fresh_conn_def Let_def)
  have r: "run sample_unmarshal (start sample_env 0 0 sample_config)
        [CallClose, Step 0, CallSubscribeBalances, CallClose] =
      perform sample_unmarshal (run sample_unmarshal ?s [Step 0, CallSubscribeBalances]) CallClose"
    using c1
    by (simp add: start_def Connect_def NewWSClient_def sample_env_def Let_def subscribed_def)
  from second_close_panics[of ?c None ?c' "[SignalDone, CloseSocket Private, CloseSocket Markets]"
      ?s sample_unmarshal "[Step 0, CallSubscribeBalances]"] c1
  show ?thesis by (simp only: r) simp
qed

subsection \<open>Readers after the cancellation signal\<close>

lemma run_append: "run um s (xs @ ys) = run um (run um s xs) ys"
proof (induction xs arbitrary: s)
  case Nil
  then show ?case by simp
next
  case (Cons a xs)
  then show ?case by (cases ys) auto
qed

lemma perform_sockets:
  "(done_chan (client (perform um s a)) = done_chan (client s)
    \<and> map_option conn_closed (privateConn (client (perform um s a))) =
        map_option conn_closed (privateConn (client s))
    \<and> map_option conn_closed (marketsConn (client (perform um s a))) =
        map_option conn_closed (marketsConn (client s)))
   \<or> (done_chan (client (perform um s a)) = Closed
    \<and> map_option conn_closed (privateConn (client (perform um s a))) =
        map_option (\<lambda>conn. True) (privateConn (client s))
    \<and> map_option conn_closed (marketsConn (client (perform um s a))) =
        map_option (\<lambda>conn. True) (marketsConn (client s)))"
proof (cases a)
  case (Step i)
  show ?thesis
  proof (cases "i < length (tasks s) \<and> task_step um (tasks s ! i) (client s) \<noteq> None")
    case True
    then obtain ls p' c' where st: "task_step um (tasks s ! i) (client s) = Some (ls, p', c')"
      by auto
    with task_step_effect[OF st] True Step show ?thesis by simp
  next
    case False
    with Step show ?thesis by (auto split: option.splits)
  qed
next
  case (Arrive sock ev)
  then show ?thesis by (cases sock) (auto simp: arrive_def split: option.splits)
next
  case Receive
  then show ?thesis by (auto simp: chan_recv_def Messages_def split: list.splits)
next
  case (CallSubscribeOrders sl)
  with subscribe_same(1)[of "client s" sl] show ?thesis
    by (simp add: same_but_conns_def)
next
  case (CallSubscribePositions sl)
  with subscribe_same(2)[of "client s" sl] show ?thesis
    by (simp add: same_but_conns_def)
next
  case CallSubscribeBalances
  with subscribe_same(3)[of "client s"] show ?thesis
    by (simp add: same_but_conns_def)
next
  case (CallSubscribeMarketData sl db)
  with subscribe_same(4)[of "client s" sl db] show ?thesis
    by (simp add: same_but_conns_def)
next
  case (CallSubscribeMarketDataLite sl)
  with subscribe_same(5)[of "client s" sl] show ?thesis
    by (simp add: same_but_conns_def)
next
  case (CallSubscribeTrades sl)
  with subscribe_same(6)[of "client s" sl] show ?thesis
    by (simp add: same_but_conns_def)
next
  case (CallUnsubscribe rid p)
  with Unsubscribe_same[of "client s" rid p] show ?thesis
    by (simp add: same_but_conns_def)
next
  case CallClose
  show ?thesis
  proof (cases "Close (client s)")
    case (Panic x)
    with CallClose show ?thesis by simp
  next
    case (Return rc)
    obtain r c' ops where "rc = (r, c', ops)" by (cases rc) auto
    with Return CallClose Close_effect[of "client s" r c' ops] show ?thesis by simp
  qed
qed

lemma torn_down_same:
  "map_option conn_closed x' = map_option conn_closed x \<Longrightarrow> torn_down x' = torn_down x"
  by (cases x; cases x') (simp_all add: torn_down_def)

lemma torn_down_closed:
  "map_option conn_closed x' = map_option (\<lambda>conn. True) x \<Longrightarrow> torn_down x'"
  by (cases x; cases x') (simp_all add: torn_down_def)

lemma present_same:
  "map_option conn_closed x' = map_option f x \<Longrightarrow> (x' = None) = (x = None)"
  by (cases x; cases x') simp_all

lemma perform_shut_down:
  assumes "shut_down (client s)"
  shows "shut_down (client (perform um s a))"
proof -
  let ?c = "client s" and ?c' = "client (perform um s a)"
  from perform_sockets[of um s a] show ?thesis
  proof (elim disjE conjE)
    assume d: "done_chan ?c' = done_chan ?c"
      and p: "map_option conn_closed (privateConn ?c') = map_option conn_closed (privateConn ?c)"
      and m: "map_option conn_closed (marketsConn ?c') = map_option conn_closed (marketsConn ?c)"
    from torn_down_same[OF p] torn_down_same[OF m] d assms
    show ?thesis by (simp add: shut_down_def)
  next
    assume d: "done_chan ?c' = Closed"
      and p: "map_option conn_closed (privateConn ?c') = map_option (\<lambda>conn. True) (privateConn ?c)"
      and m: "map_option conn_closed (marketsConn ?c') = map_option (\<lambda>conn. True) (marketsConn ?c)"
    from torn_down_closed[OF p] torn_down_closed[OF m] d
    show ?thesis by (simp add: shut_down_def)
  qed
qed

lemma run_shut_down: "shut_down (client s) \<Longrightarrow> shut_down (client (run um s acts))"
proof (induction acts arbitrary: s)
  case Nil
  then show ?case by simp
next
  case (Cons a acts)
  with perform_shut_down[of s um a] show ?case by auto
qed

lemma perform_present:
  "(privateConn (client (perform um s a)) = None) = (privateConn (client s) = None)
   \<and> (marketsConn (client (perform um s a)) = None) = (marketsConn (client s) = None)"
proof -
  have p: "(privateConn (client (perform um s a)) = None) = (privateConn (client s) = None)"
    using perform_sockets[of um s a]
      present_same[of "privateConn (client (perform um s a))" conn_closed "privateConn (client s)"]
      present_same[of "privateConn (client (perform um s a))" "\<lambda>conn. True" "privateConn (client s)"]
    by blast
  have m: "(marketsConn (client (perform um s a)) = None) = (marketsConn (client s) = None)"
    using perform_sockets[of um s a]
      present_same[of "marketsConn (client (perform um s a))" conn_closed "marketsConn (client s)"]
      present_same[of "marketsConn (client (perform um s a))" "\<lambda>conn. True" "marketsConn (client s)"]
    by blast
  from p m show ?thesis by simp
qed

lemma readPrivate_step_no_panic:
  "privateConn c \<noteq> None \<Longrightarrow> readPrivate_step um p c = Some (ls, p', c') \<Longrightarrow> p' \<noteq> Panicked"
  by (cases p)
     (auto simp: select_send_def Let_def
           split: option.splits rd_result.splits if_splits sum.splits)

lemma readMarkets_step_no_panic:
  "marketsConn c \<noteq> None \<Longrightarrow> readMarkets_step um p c = Some (ls, p', c') \<Longrightarrow> p' \<noteq> Panicked"
  by (cases p)
     (auto simp: select_send_def Let_def
           split: option.splits rd_result.splits if_splits sum.splits)

lemma task_step_no_panic:
  assumes "privateConn c \<noteq> None" "marketsConn c \<noteq> None"
    and "task_step um t c = Some (ls, p', c')"
  shows "p' \<noteq> Panicked"
proof (cases t)
  case (Pair sock p)
  with assms readPrivate_step_no_panic[of c um p ls p' c']
    readMarkets_step_no_panic[of c um p ls p' c']
  show ?thesis by (cases sock) simp_all
qed

lemma list_all_update: "list_all P xs \<Longrightarrow> P y \<Longrightarrow> list_all P (xs[i := y])"
  by (induction xs arbitrary: i) (auto split: nat.splits)

lemma perform_tasks:
  "tasks (perform um s a) = tasks s
   \<or> (\<exists>i ls p' c'. i < length (tasks s) \<and> task_step um (tasks s ! i) (client s) = Some (ls, p', c')
         \<and> tasks (perform um s a) = (tasks s)[i := (fst (tasks s ! i), p')])"
proof (cases a)
  case (Step i)
  then show ?thesis by (auto split: option.splits)
next
  case (Arrive sock ev)
  then show ?thesis by (cases sock) simp_all
next
  case Receive
  then show ?thesis by (auto split: option.splits)
next
  case CallClose
  then show ?thesis by (auto split: outcome.splits)
qed simp_all

lemma perform_readers_sound:
  assumes "readers_sound s"
  shows "readers_sound (perform um s a)"
proof -
  from perform_tasks[of um s a] show ?thesis
  proof (elim disjE exE conjE)
    assume "tasks (perform um s a) = tasks s"
    with assms perform_present[of um s a] show ?thesis by (simp add: readers_sound_def)
  next
    fix i ls p' c'
    assume i: "i < length (tasks s)"
      and st: "task_step um (tasks s ! i) (client s) = Some (ls, p', c')"
      and t: "tasks (perform um s a) = (tasks s)[i := (fst (tasks s ! i), p')]"
    from i have ne: "tasks s \<noteq> []" by auto
    with assms have pr: "privateConn (client s) \<noteq> None" "marketsConn (client s) \<noteq> None"
      by (simp_all add: readers_sound_def)
    from task_step_no_panic[OF pr st] have "p' \<noteq> Panicked" .
    with assms t have "list_all (\<lambda>t. snd t \<noteq> Panicked) (tasks (perform um s a))"
      by (simp add: readers_sound_def list_all_update)
    with pr perform_present[of um s a] show ?thesis by (simp add: readers_sound_def)
  qed
qed

lemma run_readers_sound: "readers_sound s \<Longrightarrow> readers_sound (run um s acts)"
proof (induction acts arbitrary: s)
  case Nil
  then show ?case by simp
next
  case (Cons a acts)
  with perform_readers_sound[of s um a] show ?case by auto
qed

lemma start_readers_sound: "readers_sound (start e now1 now2 cfg)"
  by (auto simp: readers_sound_def start_def Connect_def NewWSClient_def Let_def Conn_Close_def
           split: sum.splits prod.splits)

lemma shut_down_step:
  assumes sd: "shut_down c"
    and pr: "privateConn c \<noteq> None" "marketsConn c \<noteq> None"
    and p: "p = AtSelect \<or> p = InReadMessage"
  shows "\<exists>ls. task_step um (sock, p) c = Some (ls, Returned, c)"
proof -
  from pr obtain pconn mconn where c: "privateConn c = Some pconn" "marketsConn c = Some mconn"
    by auto
  with sd have cl: "done_chan c = Closed" "conn_closed pconn" "conn_closed mconn"
    by (simp_all add: shut_down_def torn_down_def)
  from p c cl show ?thesis
    by (cases sock) (auto simp: Conn_ReadMessage_def use_of_closed_def)
qed

lemma failing_close_session_state:
  "failing_close_session =
     \<lparr>client = (client (start close_fails_env 0 0 sample_config))
        \<lparr>done_chan := Closed,
         privateConn := Some (fresh_conn\<lparr>close_result := Some (TransportError ''broken pipe''),
                                          conn_closed := True\<rparr>),
         marketsConn := Some (fresh_conn\<lparr>conn_closed := True\<rparr>),
         connected := False\<rparr>,
      tasks = [(Private, InReadMessage), (Markets, AtSelect)],
      logged = [], returned = [], received = [], crashed = False\<rparr>"
  by (simp add: failing_close_session_def start_def Connect_def NewWSClient_def
        close_fails_env_def sample_config_def fresh_conn_def Close_def Conn_Close_def
        Conn_ReadMessage_def Let_def)

text \<open>
  C9. Take any schedule of a session in which \<^verbatim>\<open>Close\<close> is called and returns, whatever
  the closes of the two sockets answered, and let the session run on in any way. Then
  every reader has returned, or its next step is enabled and is its last: at its
  \<^verbatim>\<open>select\<close> it takes the \<open>done\<close> branch instead of entering \<^verbatim>\<open>ReadMessage\<close>, and inside
  \<^verbatim>\<open>ReadMessage\<close> the call fails on the closed connection. Neither step waits for a frame.
  At the \<^verbatim>\<open>select\<close> the closed channel alone is enough, whatever the state of the sockets.
\<close>

theorem readers_end_after_close:
  "(\<not> crashed (run um (start e now1 now2 cfg) (acts1 @ [CallClose]))
    \<and> i < length (tasks (run um (start e now1 now2 cfg) (acts1 @ CallClose # acts2))) \<longrightarrow>
      snd (tasks (run um (start e now1 now2 cfg) (acts1 @ CallClose # acts2)) ! i) = Returned
      \<or> (\<exists>ls. task_step um (tasks (run um (start e now1 now2 cfg) (acts1 @ CallClose # acts2)) ! i)
                  (client (run um (start e now1 now2 cfg) (acts1 @ CallClose # acts2))) =
                Some (ls, Returned, client (run um (start e now1 now2 cfg) (acts1 @ CallClose # acts2)))))
   \<and> (done_chan c = Closed \<longrightarrow>
        readPrivate_step um AtSelect c = Some ([], Returned, c)
        \<and> readMarkets_step um AtSelect c = Some ([], Returned, c))"
proof -
  let ?s0 = "start e now1 now2 cfg"
  let ?s1 = "run um ?s0 acts1"
  let ?s2 = "run um ?s0 (acts1 @ CallClose # acts2)"
  have a: "snd (tasks ?s2 ! i) = Returned
      \<or> (\<exists>ls. task_step um (tasks ?s2 ! i) (client ?s2) = Some (ls, Returned, client ?s2))"
    if nc: "\<not> crashed (run um ?s0 (acts1 @ [CallClose]))" and i: "i < length (tasks ?s2)"
  proof -
    from nc have nc1: "\<not> crashed ?s1" and nc2: "\<not> crashed (perform um ?s1 CallClose)"
      by (auto simp: run_append split: if_splits)
    from nc2 obtain r c' ops where cl: "Close (client ?s1) = Return (r, c', ops)"
      by (cases "Close (client ?s1)") auto
    from Close_effect[OF cl] have "shut_down c'"
      by (auto simp: shut_down_def intro: torn_down_closed)
    with cl have sd: "shut_down (client (perform um ?s1 CallClose))" by simp
    from nc1 have s2: "?s2 = run um (perform um ?s1 CallClose) acts2"
      by (simp add: run_append)
    from run_shut_down[OF sd, of um acts2] s2 have sd2: "shut_down (client ?s2)" by simp
    from run_readers_sound[OF start_readers_sound, of um e now1 now2 cfg "acts1 @ CallClose # acts2"]
    have rs: "readers_sound ?s2" .
    from i have ne: "tasks ?s2 \<noteq> []" by auto
    with rs have pr: "privateConn (client ?s2) \<noteq> None" "marketsConn (client ?s2) \<noteq> None"
      by (simp_all add: readers_sound_def)
    obtain sock p where t: "tasks ?s2 ! i = (sock, p)" by (cases "tasks ?s2 ! i") auto
    from rs i t have np: "p \<noteq> Panicked"
      by (auto simp: readers_sound_def list_all_length)
    show ?thesis
    proof (cases "p = Returned")
      case True
      with t show ?thesis by simp
    next
      case False
      with np have "p = AtSelect \<or> p = InReadMessage" by (cases p) simp_all
      from shut_down_step[OF sd2 pr this, of um sock] t show ?thesis by simp
    qed
  qed
  have b: "done_chan c = Closed \<longrightarrow>
        readPrivate_step um AtSelect c = Some ([], Returned, c)
        \<and> readMarkets_step um AtSelect c = Some ([], Returned, c)"
    by simp
  from a b show ?thesis by blast
qed

theorem readers_end_after_close_witness:
  "\<not> crashed (run sample_unmarshal (start close_fails_env 0 0 sample_config) ([Step 0] @ [CallClose]))
   \<and> task_step sample_unmarshal (Private, InReadMessage)
        (client (run sample_unmarshal (start close_fails_env 0 0 sample_config) [Step 0])) = None
   \<and> tasks failing_close_session = [(Private, InReadMessage), (Markets, AtSelect)]
   \<and> close_error (privateConn (client (start close_fails_env 0 0 sample_config))) =
        [TransportError ''broken pipe'']
   \<and> (\<exists>ls. task_step sample_unmarshal (tasks failing_close_session ! 0)
               (client failing_close_session) = Some (ls, Returned, client failing_close_session))
   \<and> (\<exists>ls. task_step sample_unmarshal (tasks failing_close_session ! 1)
               (client failing_close_session) = Some (ls, Returned, client failing_close_session))"
proof -
  let ?s0 = "start close_fails_env 0 0 sample_config"
  have nc: "\<not> crashed (run sample_unmarshal ?s0 ([Step 0] @ [CallClose]))"
    using failing_close_session_state by (simp add: failing_close_session_def)
  have bl: "task_step sample_unmarshal (Private, InReadMessage)
        (client (run sample_unmarshal ?s0 [Step 0])) = None"
    by (simp add: start_def Connect_def NewWSClient_def close_fails_env_def sample_config_def
          fresh_conn_def Conn_ReadMessage_def Let_def)
  have ts: "tasks failing_close_session = [(Private, InReadMessage), (Markets, AtSelect)]"
    by (simp add: failing_close_session_state)
  have ce: "close_error (privateConn (client ?s0)) = [TransportError ''broken pipe'']"
    by (simp add: close_fails_client close_error_def fresh_conn_def)
  have l: "0 < length (tasks (run sample_unmarshal ?s0 ([Step 0] @ CallClose # [])))"
    "1 < length (tasks (run sample_unmarshal ?s0 ([Step 0] @ CallClose # [])))"
    using ts by (simp_all add: failing_close_session_def)
  from readers_end_after_close[of sample_unmarshal close_fails_env 0 0 sample_config "[Step 0]" 0 "[]",
      THEN conjunct1, THEN mp, OF conjI, OF nc l(1)]
  have t0: "\<exists>ls. task_step sample_unmarshal (tasks failing_close_session ! 0)
               (client failing_close_session) = Some (ls, Returned, client failing_close_session)"
    unfolding failing_close_session_def[symmetric] by (simp add: ts)
  from readers_end_after_close[of sample_unmarshal close_fails_env 0 0 sample_config "[Step 0]" 1 "[]",
      THEN conjunct1, THEN mp, OF conjI, OF nc l(2)]
  have t1: "\<exists>ls. task_step sample_unmarshal (tasks failing_close_session ! 1)
               (client failing_close_session) = Some (ls, Returned, client failing_close_session)"
    unfolding failing_close_session_def[symmetric] by (simp add: ts)
  from nc bl ts ce t0 t1 show ?thesis by blast
qed

subsection \<open>The message a request signs\<close>

lemmas url_defs = url_Parse_def url_parse_def cut_def getScheme_def is_scheme_char_def
  is_letter_def is_digit_def is_ctl_def to_lower_def in_range_def cut_authority_def
  NewRequest_def validMethod_def is_token_char_def Let_def

lemma positions_request:
  "NewRequest ''GET'' (''https://api.polymarket.us'' @ ''/v1/portfolio/positions?limit=10'') =
     Inr \<lparr>Method = ''GET'',
          URL = \<lparr>Scheme = ''https'', Opaque = [], Host = ''api.polymarket.us'',
                 Path = ''/v1/portfolio/positions'', RawQuery = ''limit=10'', Fragment = []\<rparr>,
          Header = Map.empty\<rparr>"
  by (simp add: url_defs)

text \<open>
  C6. For every signer, clock reading, request and configuration, the value
  \<^verbatim>\<open>SignRequest\<close> stores under \<^verbatim>\<open>X-PM-Signature\<close> is the encoded signature of the decimal
  timestamp followed by the method followed by the URL path, with nothing in between; the
  query of the URL has no part in it. For the REST call of method \<^verbatim>\<open>GET\<close> on
  \<^verbatim>\<open>/v1/portfolio/positions?limit=10\<close> at time 1704067200000 the message signed is
  \<^verbatim>\<open>1704067200000GET/v1/portfolio/positions\<close>.
\<close>

theorem signed_message_is_timestamp_method_path:
  "Header (SignRequest e now req cfg) ''X-PM-Signature'' =
     Some (EncodeToString e (Sign e (PrivateKey cfg) (FormatInt now @ Method req @ Path (URL req))))
   \<and> Header (SignRequest e now req cfg) ''X-PM-Timestamp'' = Some (FormatInt now)
   \<and> Header (SignRequest e now req cfg) ''X-PM-Access-Key'' = Some (APIKey cfg)
   \<and> Header (SignRequest e now (req\<lparr>URL := (URL req)\<lparr>RawQuery := query\<rparr>\<rparr>) cfg) ''X-PM-Signature'' =
       Header (SignRequest e now req cfg) ''X-PM-Signature''
   \<and> FormatInt 1704067200000 = ''1704067200000''
   \<and> (BaseURL cfg = ''https://api.polymarket.us'' \<longrightarrow>
        (\<exists>req'. doRequest_signed e 1704067200000 cfg ''GET'' ''/v1/portfolio/positions?limit=10'' False
                  = Inr req'
           \<and> Path (URL req') = ''/v1/portfolio/positions''
           \<and> RawQuery (URL req') = ''limit=10''
           \<and> Header req' ''X-PM-Signature'' =
               Some (EncodeToString e (Sign e (PrivateKey cfg)
                  ''1704067200000GET/v1/portfolio/positions''))))"
proof -
  have f: "FormatInt 1704067200000 = ''1704067200000''"
    by (simp add: FormatInt_def digit_char_def)
  have s: "Header (SignRequest e now req cfg) ''X-PM-Signature'' =
     Some (EncodeToString e (Sign e (PrivateKey cfg) (FormatInt now @ Method req @ Path (URL req))))"
    for now req
    by (simp add: SignRequest_def Let_def)
  have t: "Header (SignRequest e now req cfg) ''X-PM-Timestamp'' = Some (FormatInt now)"
    by (simp add: SignRequest_def Let_def)
  have k: "Header (SignRequest e now req cfg) ''X-PM-Access-Key'' = Some (APIKey cfg)"
    by (simp add: SignRequest_def Let_def)
  have q: "Header (SignRequest e now (req\<lparr>URL := (URL req)\<lparr>RawQuery := query\<rparr>\<rparr>) cfg) ''X-PM-Signature'' =
       Header (SignRequest e now req cfg) ''X-PM-Signature''"
    by (simp add: s)
  have d: "\<exists>req'. doRequest_signed e 1704067200000 cfg ''GET'' ''/v1/portfolio/positions?limit=10'' False
                  = Inr req'
           \<and> Path (URL req') = ''/v1/portfolio/positions''
           \<and> RawQuery (URL req') = ''limit=10''
           \<and> Header req' ''X-PM-Signature'' =
               Some (EncodeToString e (Sign e (PrivateKey cfg)
                  ''1704067200000GET/v1/portfolio/positions''))"
    if "BaseURL cfg = ''https://api.polymarket.us''"
    using that positions_request
    by (simp add: doRequest_signed_def s f) (simp add: SignRequest_def Let_def)
  from f s t k q d show ?thesis by blast
qed

theorem signed_message_is_timestamp_method_path_witness:
  "BaseURL sample_config = ''https://api.polymarket.us''
   \<and> (\<exists>req'. doRequest_signed sample_env 1704067200000 sample_config ''GET''
                 ''/v1/portfolio/positions?limit=10'' False = Inr req'
         \<and> Header req' ''X-PM-Signature'' = Some ''signed[1704067200000GET/v1/portfolio/positions]''
         \<and> Header req' ''X-PM-Timestamp'' = Some ''1704067200000'')"
proof -
  have b: "BaseURL sample_config = ''https://api.polymarket.us''"
    by (simp add: sample_config_def)
  from signed_message_is_timestamp_method_path[of sample_env 1704067200000 _ sample_config,
      THEN conjunct2, THEN conjunct2, THEN conjunct2, THEN conjunct2, THEN conjunct2, THEN mp, OF b]
  obtain req' where r: "doRequest_signed sample_env 1704067200000 sample_config ''GET''
                 ''/v1/portfolio/positions?limit=10'' False = Inr req'"
    "Header req' ''X-PM-Signature'' =
               Some (EncodeToString sample_env (Sign sample_env (PrivateKey sample_config)
                  ''1704067200000GET/v1/portfolio/positions''))"
    by blast
  have t: "Header req' ''X-PM-Timestamp'' = Some ''1704067200000''"
    using r(1) positions_request b
    by (auto simp: doRequest_signed_def SignRequest_def Let_def FormatInt_def digit_char_def)
  from b r t show ?thesis
    by (auto simp: sample_env_def sample_sign_def)
qed

subsection \<open>The subscription frame on the wire\<close>

text \<open>
  C7. The subscription request for market data on the slugs \<^verbatim>\<open>["m1"]\<close> with debouncing
  encodes, for any request id, to the document
  \<^verbatim>\<open>{"subscribe": {"request_id": ..., "subscription_type": 1, "market_slugs": ["m1"],
  "responses_debounced": true}}\<close>. This is the frame \<^verbatim>\<open>SubscribeMarketData\<close> writes on an
  open markets connection, and reading it back gives the integer 1 for
  \<^verbatim>\<open>subscription_type\<close>, the list \<^verbatim>\<open>["m1"]\<close> for \<^verbatim>\<open>market_slugs\<close> and \<^verbatim>\<open>true\<close> for
  \<^verbatim>\<open>responses_debounced\<close>.
\<close>

theorem market_data_subscription_round_trip:
  "json_Marshal (SubscribeRequest \<lparr>Subscribe = Some
        \<lparr>WSSubscription.RequestID = rid, SubscriptionType = SubscriptionTypeMarketData,
         MarketSlugs = [''m1''], ResponsesDebounced = True\<rparr>\<rparr>) =
     Inr (JObject [(''subscribe'',
        JObject [(''request_id'', JString rid), (''subscription_type'', JNumber 1),
                 (''market_slugs'', JArray [JString ''m1'']),
                 (''responses_debounced'', JBool True)])])
   \<and> (marketsConn c = Some conn \<and> \<not> conn_closed conn \<and> write_result conn = None \<longrightarrow>
        (\<exists>rid frame sub.
           fst (SubscribeMarketData [''m1''] True c) = Inr rid
           \<and> written (marketsConn (snd (SubscribeMarketData [''m1''] True c))) =
               outbox conn @ [frame]
           \<and> json_field ''subscribe'' frame = Some sub
           \<and> json_field ''request_id'' sub = Some (JString rid)
           \<and> json_field ''subscription_type'' sub = Some (JNumber 1)
           \<and> json_field ''market_slugs'' sub = Some (JArray [JString ''m1''])
           \<and> json_field ''responses_debounced'' sub = Some (JBool True)))"
proof -
  have a: "json_Marshal (SubscribeRequest \<lparr>Subscribe = Some
        \<lparr>WSSubscription.RequestID = rid, SubscriptionType = SubscriptionTypeMarketData,
         MarketSlugs = [''m1''], ResponsesDebounced = True\<rparr>\<rparr>) =
     Inr (JObject [(''subscribe'',
        JObject [(''request_id'', JString rid), (''subscription_type'', JNumber 1),
                 (''market_slugs'', JArray [JString ''m1'']),
                 (''responses_debounced'', JBool True)])])"
    by (simp add: Marshal_WSSubscription_def SubscriptionTypeMarketData_def)
  have b: "\<exists>rid frame sub.
           fst (SubscribeMarketData [''m1''] True c) = Inr rid
           \<and> written (marketsConn (snd (SubscribeMarketData [''m1''] True c))) =
               outbox conn @ [frame]
           \<and> json_field ''subscribe'' frame = Some sub
           \<and> json_field ''request_id'' sub = Some (JString rid)
           \<and> json_field ''subscription_type'' sub = Some (JNumber 1)
           \<and> json_field ''market_slugs'' sub = Some (JArray [JString ''m1''])
           \<and> json_field ''responses_debounced'' sub = Some (JBool True)"
    if "marketsConn c = Some conn" "\<not> conn_closed conn" "write_result conn = None"
    using that
    by (simp add: SubscribeMarketData_def nextRequestID_def sendMarkets_def Conn_WriteMessage_def
          written_def Marshal_WSSubscription_def SubscriptionTypeMarketData_def Let_def)
  from a b show ?thesis by blast
qed

theorem market_data_subscription_round_trip_witness:
  "marketsConn (client (start sample_env 0 0 sample_config)) = Some fresh_conn
   \<and> fst (SubscribeMarketData [''m1''] True (client (start sample_env 0 0 sample_config))) =
        Inr ''marketdata-1''
   \<and> written (marketsConn (snd (SubscribeMarketData [''m1''] True
        (client (start sample_env 0 0 sample_config))))) =
       [JObject [(''subscribe'',
          JObject [(''request_id'', JString ''marketdata-1''), (''subscription_type'', JNumber 1),
                   (''market_slugs'', JArray [JString ''m1'']),
                   (''responses_debounced'', JBool True)])]]"
proof -
  let ?c = "client (start sample_env 0 0 sample_config)"
  have m: "marketsConn ?c = Some fresh_conn" "\<not> conn_closed fresh_conn"
    "write_result fresh_conn = None" "outbox fresh_conn = []"
    by (simp_all add: started_client fresh_conn_def)
  have f: "fst (SubscribeMarketData [''m1''] True ?c) = Inr ''marketdata-1''"
    by (simp add: started_client SubscribeMarketData_def nextRequestID_def sendMarkets_def
          Conn_WriteMessage_def fresh_conn_def FormatInt_def digit_char_def Let_def)
  from market_data_subscription_round_trip[of _ ?c fresh_conn, THEN conjunct2, THEN mp,
      OF conjI, OF m(1) conjI, OF m(2) m(3)]
  obtain rid frame sub where r:
    "fst (SubscribeMarketData [''m1''] True ?c) = Inr rid"
    "written (marketsConn (snd (SubscribeMarketData [''m1''] True ?c))) = outbox fresh_conn @ [frame]"
    by blast
  have "frame = JObject [(''subscribe'',
          JObject [(''request_id'', JString ''marketdata-1''), (''subscription_type'', JNumber 1),
                   (''market_slugs'', JArray [JString ''m1'']),
                   (''responses_debounced'', JBool True)])]"
    using r(2)
    by (simp add: started_client SubscribeMarketData_def nextRequestID_def sendMarkets_def
          Conn_WriteMessage_def fresh_conn_def FormatInt_def digit_char_def Let_def written_def
          Marshal_WSSubscription_def SubscriptionTypeMarketData_def)
  with r m f show ?thesis by simp
qed

subsection \<open>Request ids\<close>

lemma digit_value_char: "n < 10 \<Longrightarrow> digit_value (digit_char n) = n"
  by (auto simp: digit_char_def digit_value_def)

lemma digit_char_not_minus: "digit_char n \<noteq> CHR ''-''" "CHR ''-'' \<noteq> digit_char n"
  by (simp_all add: digit_char_def)

lemma undigits_snoc: "undigits (s @ [x]) = 10 * undigits s + digit_value x"
  by (simp add: undigits_def)

lemma undigits_digits10: "undigits (digits10 n) = n"
proof (induction n rule: digits10.induct)
  case (1 n)
  show ?case
  proof (cases "n < 10")
    case True
    then show ?thesis by (simp add: undigits_def digit_value_char)
  next
    case False
    with 1 have "undigits (digits10 (n div 10)) = n div 10" by simp
    with False show ?thesis
      by (subst digits10.simps) (simp add: undigits_snoc digit_value_char)
  qed
qed

lemma digits10_no_minus: "CHR ''-'' \<notin> set (digits10 n)"
proof (induction n rule: digits10.induct)
  case (1 n)
  show ?case
  proof (cases "n < 10")
    case True
    then show ?thesis by (simp add: digit_char_not_minus)
  next
    case False
    with 1 have "CHR ''-'' \<notin> set (digits10 (n div 10))" by simp
    with False show ?thesis
      by (subst digits10.simps) (simp add: digit_char_not_minus)
  qed
qed

lemma digits10_not_empty: "digits10 n \<noteq> []"
  by (subst digits10.simps) simp

lemma digits10_inj: "digits10 m = digits10 n \<Longrightarrow> m = n"
  by (metis undigits_digits10)

lemma FormatInt_inj: "FormatInt a = FormatInt b \<Longrightarrow> a = b"
proof -
  assume e: "FormatInt a = FormatInt b"
  have hd: "hd (digits10 n) \<noteq> CHR ''-''" for n
    using digits10_no_minus[of n] digits10_not_empty[of n] by (cases "digits10 n") auto
  have "sint a = sint b"
  proof (cases "sint a < 0"; cases "sint b < 0")
    assume "sint a < 0" "sint b < 0"
    with e have "digits10 (nat (- sint a)) = digits10 (nat (- sint b))"
      by (simp add: FormatInt_def)
    from digits10_inj[OF this] \<open>sint a < 0\<close> \<open>sint b < 0\<close> show ?thesis by simp
  next
    assume "sint a < 0" "\<not> sint b < 0"
    with e have "CHR ''-'' # digits10 (nat (- sint a)) = digits10 (nat (sint b))"
      by (simp add: FormatInt_def)
    with hd[of "nat (sint b)"] show ?thesis by (metis list.sel(1))
  next
    assume "\<not> sint a < 0" "sint b < 0"
    with e have "digits10 (nat (sint a)) = CHR ''-'' # digits10 (nat (- sint b))"
      by (simp add: FormatInt_def)
    with hd[of "nat (sint a)"] show ?thesis by (metis list.sel(1))
  next
    assume "\<not> sint a < 0" "\<not> sint b < 0"
    with e have "digits10 (nat (sint a)) = digits10 (nat (sint b))"
      by (simp add: FormatInt_def)
    from digits10_inj[OF this] \<open>\<not> sint a < 0\<close> \<open>\<not> sint b < 0\<close> show ?thesis by simp
  qed
  then show "a = b" by (rule signed_word_eqI)
qed

lemma prefix_cut:
  "CHR ''-'' \<notin> set p \<Longrightarrow> takeWhile (\<lambda>x. x \<noteq> CHR ''-'') (p @ ''-'' @ r) = p"
  by (induction p) auto

lemma request_id_inj:
  assumes "p \<in> set request_prefixes" "q \<in> set request_prefixes"
    and "p @ ''-'' @ FormatInt a = q @ ''-'' @ FormatInt b"
  shows "a = b"
proof -
  have np: "CHR ''-'' \<notin> set p" "CHR ''-'' \<notin> set q"
    using assms(1,2) by (auto simp: request_prefixes_def)
  from assms(3) have "takeWhile (\<lambda>x. x \<noteq> CHR ''-'') (p @ ''-'' @ FormatInt a) =
     takeWhile (\<lambda>x. x \<noteq> CHR ''-'') (q @ ''-'' @ FormatInt b)" by simp
  with np have "p = q" by (simp add: prefix_cut del: append.simps)
  with assms(3) have "FormatInt a = FormatInt b" by simp
  then show ?thesis by (rule FormatInt_inj)
qed

lemma perform_returned:
  "(returned (perform um s a) = returned s
    \<and> requestID (client (perform um s a)) = requestID (client s))
   \<or> (\<exists>r. returned (perform um s a) = returned s @ [r]
         \<and> requestID (client (perform um s a)) = requestID (client s) + 1
         \<and> (\<forall>x. r = Inr x \<longrightarrow>
               (\<exists>p \<in> set request_prefixes. x = p @ ''-'' @ FormatInt (requestID (client s) + 1))))"
proof (cases a)
  case (Step i)
  show ?thesis
  proof (cases "i < length (tasks s) \<and> task_step um (tasks s ! i) (client s) \<noteq> None")
    case True
    then obtain ls p' c' where st: "task_step um (tasks s ! i) (client s) = Some (ls, p', c')"
      by auto
    with task_step_effect[OF st] True Step show ?thesis by simp
  next
    case False
    with Step show ?thesis by (auto split: option.splits)
  qed
next
  case (Arrive sock ev)
  then show ?thesis by (cases sock) simp_all
next
  case Receive
  then show ?thesis by (auto simp: chan_recv_def Messages_def split: list.splits)
next
  case (CallSubscribeOrders sl)
  with subscribe_requestID(1)[of sl "client s"] subscribe_fst(1)[of sl "client s"]
  show ?thesis by (auto simp: request_prefixes_def)
next
  case (CallSubscribePositions sl)
  with subscribe_requestID(2)[of sl "client s"] subscribe_fst(2)[of sl "client s"]
  show ?thesis by (auto simp: request_prefixes_def)
next
  case CallSubscribeBalances
  with subscribe_requestID(3)[of "client s"] subscribe_fst(3)[of "client s"]
  show ?thesis by (auto simp: request_prefixes_def)
next
  case (CallSubscribeMarketData sl db)
  with subscribe_requestID(4)[of sl db "client s"] subscribe_fst(4)[of sl db "client s"]
  show ?thesis by (auto simp: request_prefixes_def)
next
  case (CallSubscribeMarketDataLite sl)
  with subscribe_requestID(5)[of sl "client s"] subscribe_fst(5)[of sl "client s"]
  show ?thesis by (auto simp: request_prefixes_def)
next
  case (CallSubscribeTrades sl)
  with subscribe_requestID(6)[of sl "client s"] subscribe_fst(6)[of sl "client s"]
  show ?thesis by (auto simp: request_prefixes_def)
next
  case (CallUnsubscribe rid p)
  with Unsubscribe_requestID[of rid p "client s"] show ?thesis by simp
next
  case CallClose
  show ?thesis
  proof (cases "Close (client s)")
    case (Panic x)
    with CallClose show ?thesis by simp
  next
    case (Return rc)
    obtain r c' ops where "rc = (r, c', ops)" by (cases rc) auto
    with Return CallClose Close_effect[of "client s" r c' ops] show ?thesis by simp
  qed
qed

lemma perform_ids_numbered:
  assumes "ids_numbered s"
  shows "ids_numbered (perform um s a)"
proof -
  from perform_returned[of um s a] show ?thesis
  proof (elim disjE exE conjE)
    assume "returned (perform um s a) = returned s"
      "requestID (client (perform um s a)) = requestID (client s)"
    with assms show ?thesis by (simp add: ids_numbered_def)
  next
    fix r
    assume r: "returned (perform um s a) = returned s @ [r]"
      and c: "requestID (client (perform um s a)) = requestID (client s) + 1"
      and x: "\<forall>x. r = Inr x \<longrightarrow>
               (\<exists>p \<in> set request_prefixes. x = p @ ''-'' @ FormatInt (requestID (client s) + 1))"
    from assms have n: "requestID (client s) = of_nat (length (returned s))"
      by (simp add: ids_numbered_def)
    have "\<exists>p \<in> set request_prefixes. y = p @ ''-'' @ FormatInt (of_nat (Suc k))"
      if "k < length (returned s @ [r])" "(returned s @ [r]) ! k = Inr y" for k y
    proof (cases "k < length (returned s)")
      case True
      with that assms show ?thesis by (simp add: ids_numbered_def nth_append)
    next
      case False
      with that have "k = length (returned s)" "r = Inr y" by (simp_all add: nth_append)
      with x n show ?thesis by (simp add: add.commute)
    qed
    with r c n show ?thesis by (simp add: ids_numbered_def)
  qed
qed

lemma run_ids_numbered: "ids_numbered s \<Longrightarrow> ids_numbered (run um s acts)"
proof (induction acts arbitrary: s)
  case Nil
  then show ?case by simp
next
  case (Cons a acts)
  with perform_ids_numbered[of s um a] show ?case by auto
qed

lemma start_ids_numbered: "ids_numbered (start e now1 now2 cfg)"
  by (simp add: ids_numbered_def start_def Connect_def NewWSClient_def Let_def Conn_Close_def
           split: sum.splits prod.splits)

lemma counter_values_differ:
  assumes "i < j" "j - i < 2 ^ 64"
  shows "(of_nat (Suc i) :: 64 word) \<noteq> of_nat (Suc j)"
proof
  assume e: "(of_nat (Suc i) :: 64 word) = of_nat (Suc j)"
  from assms(1) have "Suc j = Suc i + (j - i)" by simp
  then have "(of_nat (Suc j) :: 64 word) = of_nat (Suc i) + of_nat (j - i)"
    by (metis of_nat_add)
  with e have "(of_nat (j - i) :: 64 word) = 0" by simp
  then have "2 ^ 64 dvd (j - i)" by (simp add: word_of_nat_eq_0_iff)
  with assms show False by (auto dest: dvd_imp_le)
qed

text \<open>
  C5. The request counter of a session advances by one on every call of the six
  subscribe methods and on nothing else: after any schedule it equals, as a 64-bit
  integer, the number of such calls made. Any two of these calls that lie within the range
  of the counter, that is with fewer than \<open>2 ^ 64\<close> such calls from the first to the
  second, return different request ids: the counter values differ, the decimal rendering
  is injective, and no prefix contains the separator.
\<close>

theorem request_ids_distinct_within_counter_range:
  "(i < j \<and> j < length (returned (run um (start e now1 now2 cfg) acts)) \<and> j - i < 2 ^ 64
    \<and> returned (run um (start e now1 now2 cfg) acts) ! i = Inr a
    \<and> returned (run um (start e now1 now2 cfg) acts) ! j = Inr b \<longrightarrow> a \<noteq> b)
   \<and> requestID (client (run um (start e now1 now2 cfg) acts)) =
       of_nat (length (returned (run um (start e now1 now2 cfg) acts)))
   \<and> requestID (snd (nextRequestID prefix c)) = requestID c + 1"
proof -
  let ?s = "run um (start e now1 now2 cfg) acts"
  from run_ids_numbered[OF start_ids_numbered, of um e now1 now2 cfg acts]
  have inv: "ids_numbered ?s" .
  have d: "a \<noteq> b"
    if "i < j" "j < length (returned ?s)" "j - i < 2 ^ 64"
       "returned ?s ! i = Inr a" "returned ?s ! j = Inr b"
  proof
    assume ab: "a = b"
    from inv that obtain p where p: "p \<in> set request_prefixes"
      "a = p @ ''-'' @ FormatInt (of_nat (Suc i))"
      unfolding ids_numbered_def by (meson less_trans)
    from inv that obtain q where q: "q \<in> set request_prefixes"
      "b = q @ ''-'' @ FormatInt (of_nat (Suc j))"
      unfolding ids_numbered_def by meson
    from ab p(2) q(2)
    have "p @ ''-'' @ FormatInt (of_nat (Suc i)) = q @ ''-'' @ FormatInt (of_nat (Suc j))"
      by simp
    from request_id_inj[OF p(1) q(1) this] counter_values_differ[OF that(1) that(3)]
    show False by simp
  qed
  have n: "requestID (client ?s) = of_nat (length (returned ?s))"
    using inv by (simp add: ids_numbered_def)
  have c: "requestID (snd (nextRequestID prefix c)) = requestID c + 1"
    by (simp add: nextRequestID_def Let_def)
  from d n c show ?thesis by blast
qed

theorem request_ids_distinct_within_counter_range_witness:
  "returned (run sample_unmarshal (start sample_env 0 0 sample_config)
      [CallSubscribeOrders [''m1''], CallSubscribePositions [''m1''], CallSubscribeBalances]) =
     [Inr ''order-1'', Inr ''position-2'', Inr ''balance-3'']
   \<and> (0::nat) < 2 \<and> (2::nat) - 0 < 2 ^ 64
   \<and> ''order-1'' \<noteq> ''balance-3''"
proof -
  let ?s = "run sample_unmarshal (start sample_env 0 0 sample_config)
      [CallSubscribeOrders [''m1''], CallSubscribePositions [''m1''], CallSubscribeBalances]"
  have r: "returned ?s = [Inr ''order-1'', Inr ''position-2'', Inr ''balance-3'']"
    by (simp add: start_def Connect_def NewWSClient_def sample_env_def fresh_conn_def Let_def
          subscribed_def subscribe_defs nextRequestID_def sendPrivate_def Conn_WriteMessage_def
          FormatInt_def digit_char_def)
  have h: "(0::nat) < 2 \<and> 2 < length (returned ?s) \<and> (2::nat) - 0 < 2 ^ 64
    \<and> returned ?s ! 0 = Inr ''order-1'' \<and> returned ?s ! 2 = Inr ''balance-3''"
    unfolding r by simp
  from request_ids_distinct_within_counter_range[of 0 2 sample_unmarshal sample_env 0 0
      sample_config _ "''order-1''" "''balance-3''", THEN conjunct1, THEN mp, OF h] r
  show ?thesis unfolding r by simp
qed

end
